theory Spec2Isabelle
  imports Complex_Main "HOL-Library.Multiset" "HOL-Library.Product_Lexorder"
begin

section \<open>Data model\<close>

text \<open>
  The classifier \<^verbatim>\<open>identify_breakout\<close> and the orchestrator \<^verbatim>\<open>scan_for_breakouts\<close> of
  \<^verbatim>\<open>src/main.py\<close> work on a pandas DataFrame with the columns
  \<^verbatim>\<open>timestamp, open, high, low, close, volume\<close>. A frame is modelled as the list of its
  rows. A price is a double, modelled by the real number it stands for; the volume is
  an integer. A timestamp cell is either the string the data feed delivered or a
  datetime (an instant on the integer time line), which is what \<^verbatim>\<open>pd.to_datetime\<close> stores
  back into the column.
\<close>

datatype stamp = Str string | Datetime int

record candle =
  timestamp :: stamp
  open_price :: real
  high :: real
  low :: real
  close :: real
  volume :: int

type_synonym frame = "candle list"

text \<open>
  A float cell of a derived column: \<open>None\<close> is NaN. The input columns hold no NaN;
  NaN enters through \<^verbatim>\<open>shift(1)\<close> only. Infinities are not modelled.
\<close>

type_synonym float = "real option"

datatype error = ParserError | ValueError | IndexError | FetchError

text \<open>The values of the \<^verbatim>\<open>details\<close> dictionary and of a result row.\<close>

datatype pyval = PyStr string | PyInt int | PyFloat float

type_synonym details = "(string \<times> pyval) list"

type_synonym verdict = "bool \<times> string \<times> details"

section \<open>What pandas and numpy decide\<close>

text \<open>
  The source leaves to its libraries how a timestamp string is read, in which order
  rows with equal timestamps come out of a sort, and how double arithmetic rounds.
  These are parameters of the model, collected in one record, and every theorem below
  holds for every value of it:
  \<^item> \<open>read_date\<close>: \<^verbatim>\<open>pd.to_datetime\<close> on one string, \<open>None\<close> where it raises;
  \<^item> \<open>tie_rank\<close>: \<^verbatim>\<open>sort_values\<close> uses numpy's quicksort, which is not stable;
    \<open>tie_rank ts i\<close> ranks row \<open>i\<close> among the rows whose timestamp in the column \<open>ts\<close> is
    the same;
  \<^item> \<open>fl_sub\<close>, \<open>fl_mul\<close>: the double nearest to a difference and to a product;
  \<^item> \<open>fl_int\<close>: the double an \<^verbatim>\<open>int64\<close> is converted to;
  \<^item> \<open>fl_mean w xs i\<close>: the double that \<^verbatim>\<open>rolling(window=w, min_periods=1).mean()\<close> holds
    at row \<open>i\<close> of the column \<open>xs\<close> when the window has an observation (pandas computes
    it from running sums, so it may depend on rows before the window).
  Comparisons, \<open>max\<close> and \<open>abs\<close> of doubles are exact and need no parameter.
\<close>

record library =
  read_date :: "string \<Rightarrow> int option"
  tie_rank :: "int list \<Rightarrow> nat \<Rightarrow> nat"
  fl_sub :: "real \<Rightarrow> real \<Rightarrow> real"
  fl_mul :: "real \<Rightarrow> real \<Rightarrow> real"
  fl_int :: "int \<Rightarrow> real"
  fl_mean :: "nat \<Rightarrow> float list \<Rightarrow> nat \<Rightarrow> real"

section \<open>Library functions used by the classifier\<close>

text \<open>\<^verbatim>\<open>pd.notna\<close>, and float arithmetic and comparison with NaN.\<close>

definition notna :: "float \<Rightarrow> bool" where
  "notna x = (x \<noteq> None)"

fun fsub :: "library \<Rightarrow> float \<Rightarrow> float \<Rightarrow> float" where
  "fsub lib (Some a) (Some b) = Some (fl_sub lib a b)"
| "fsub lib _ _ = None"

fun fmul :: "library \<Rightarrow> float \<Rightarrow> float \<Rightarrow> float" where
  "fmul lib (Some a) (Some b) = Some (fl_mul lib a b)"
| "fmul lib _ _ = None"

fun fabs :: "float \<Rightarrow> float" where
  "fabs (Some a) = Some \<bar>a\<bar>"
| "fabs None = None"

text \<open>\<^verbatim>\<open>np.maximum\<close> propagates NaN (unlike \<^verbatim>\<open>np.fmax\<close>).\<close>

fun np_maximum :: "float \<Rightarrow> float \<Rightarrow> float" where
  "np_maximum (Some a) (Some b) = Some (max a b)"
| "np_maximum _ _ = None"

text \<open>A comparison with NaN is false.\<close>

fun fgt :: "float \<Rightarrow> float \<Rightarrow> bool" where
  "fgt (Some a) (Some b) = (b < a)"
| "fgt _ _ = False"

text \<open>\<^verbatim>\<open>Series.shift(1)\<close>: every value moves one row down, the first row becomes NaN.\<close>

definition shift1 :: "float list \<Rightarrow> float list" where
  "shift1 xs = take (length xs) (None # xs)"

text \<open>
  \<^verbatim>\<open>Series.rolling(window=w, min_periods=m)\<close> followed by an aggregation: at row \<open>i\<close> the
  window holds the rows \<open>i + 1 - w .. i\<close> that exist, NaN cells are not observations,
  and the result is NaN when fewer than \<open>m\<close> observations are in the window. Otherwise
  it is the aggregate \<open>agg xs i\<close> of the column at that row: the largest observation of
  the window for \<^verbatim>\<open>max()\<close>, which is exact, and the library's \<open>fl_mean\<close> for \<^verbatim>\<open>mean()\<close>.
  \<open>window_mean\<close> is the mean without rounding.
\<close>

definition window :: "nat \<Rightarrow> nat \<Rightarrow> 'a list \<Rightarrow> 'a list" where
  "window w i xs = drop (Suc i - w) (take (Suc i) xs)"

definition observations :: "float list \<Rightarrow> real list" where
  "observations ys = map the (filter notna ys)"

definition rolling ::
  "nat \<Rightarrow> nat \<Rightarrow> (float list \<Rightarrow> nat \<Rightarrow> real) \<Rightarrow> float list \<Rightarrow> float list" where
  "rolling w min_periods agg xs =
     map (\<lambda>i. if min_periods \<le> length (observations (window w i xs))
              then Some (agg xs i) else None)
         [0..<length xs]"

definition list_max :: "real list \<Rightarrow> real" where
  "list_max xs = fold max (tl xs) (hd xs)"

definition mean :: "real list \<Rightarrow> real" where
  "mean xs = sum_list xs / real (length xs)"

definition window_max :: "nat \<Rightarrow> float list \<Rightarrow> nat \<Rightarrow> real" where
  "window_max w xs i = list_max (observations (window w i xs))"

definition window_mean :: "nat \<Rightarrow> float list \<Rightarrow> nat \<Rightarrow> real" where
  "window_mean w xs i = mean (observations (window w i xs))"

text \<open>\<^verbatim>\<open>Series.iloc[i]\<close>: a negative index counts from the end; out of range raises.\<close>

definition iloc :: "'a list \<Rightarrow> int \<Rightarrow> error + 'a" where
  "iloc xs i =
     (if 0 \<le> i \<and> i < int (length xs) then Inr (xs ! nat i)
      else if i < 0 \<and> - int (length xs) \<le> i then Inr (xs ! nat (int (length xs) + i))
      else Inl IndexError)"

text \<open>
  \<^verbatim>\<open>pd.to_datetime\<close> on the timestamp column, with \<open>parse\<close> reading one string. A cell
  that is a datetime already stays as it is. One bad cell makes the whole call raise.
\<close>

fun to_dt :: "(string \<Rightarrow> int option) \<Rightarrow> stamp \<Rightarrow> int option" where
  "to_dt parse (Str s) = parse s"
| "to_dt parse (Datetime t) = Some t"

definition to_datetime :: "(string \<Rightarrow> int option) \<Rightarrow> stamp list \<Rightarrow> int list option" where
  "to_datetime parse col =
     (if list_all (\<lambda>c. to_dt parse c \<noteq> None) col
      then Some (map (\<lambda>c. the (to_dt parse c)) col) else None)"

text \<open>\<^verbatim>\<open>df['timestamp'] = ts\<close>: the column of the frame is replaced, row by row.\<close>

definition set_timestamp :: "frame \<Rightarrow> int list \<Rightarrow> frame" where
  "set_timestamp df ts = map (\<lambda>(c, t). c\<lparr>timestamp := Datetime t\<rparr>) (zip df ts)"

text \<open>
  \<^verbatim>\<open>df.sort_values('timestamp')\<close>: a new frame, the rows in ascending order of the
  datetimes \<open>ts\<close> of the column. The numbered rows are sorted by datetime, and among
  equal datetimes by the rank \<open>tie\<close> gives them; so every order of equal datetimes that
  a sorting algorithm can produce is the result for some \<open>tie\<close>.
\<close>

definition sort_values :: "(int list \<Rightarrow> nat \<Rightarrow> nat) \<Rightarrow> int list \<Rightarrow> frame \<Rightarrow> frame" where
  "sort_values tie ts df =
     map (\<lambda>(i, t, c). c)
         (sort_key (\<lambda>(i, t, c). (t, tie ts i)) (zip [0..<length df] (zip ts df)))"

section \<open>The classifier\<close>

text \<open>
  Lines 180 to 182: the true-range column of the sorted frame,
  \<^verbatim>\<open>np.maximum(high - low, np.maximum(abs(high - close.shift(1)), abs(low - close.shift(1))))\<close>.
\<close>

definition tr_column :: "library \<Rightarrow> frame \<Rightarrow> float list" where
  "tr_column lib s =
     map (\<lambda>(c, pc). np_maximum (fsub lib (Some (high c)) (Some (low c)))
                      (np_maximum (fabs (fsub lib (Some (high c)) pc))
                                  (fabs (fsub lib (Some (low c)) pc))))
         (zip s (shift1 (map (\<lambda>c. Some (close c)) s)))"

text \<open>Lines 192 to 199: the \<^verbatim>\<open>details\<close> dictionary, in insertion order.\<close>

definition mk_details :: "real \<Rightarrow> real \<Rightarrow> float \<Rightarrow> float \<Rightarrow> int \<Rightarrow> float \<Rightarrow> details" where
  "mk_details current_close previous_high breakout_size atr current_volume avg_volume =
     [(''current_close'', PyFloat (Some current_close)),
      (''previous_high'', PyFloat (Some previous_high)),
      (''breakout_size'', PyFloat breakout_size),
      (''atr'', PyFloat atr),
      (''current_volume'', PyInt current_volume),
      (''avg_volume'', PyFloat avg_volume)]"

text \<open>
  Lines 177 to 213, once \<^verbatim>\<open>current_close\<close> and \<^verbatim>\<open>previous_high\<close> have been read from the
  sorted frame \<open>s\<close>. The volume column holds integers; its rolling mean is taken over
  their doubles, and \<^verbatim>\<open>current_volume > 1.5 * avg_volume\<close> compares the double of the
  integer.
\<close>

definition decide :: "library \<Rightarrow> frame \<Rightarrow> nat \<Rightarrow> real \<Rightarrow> float \<Rightarrow> error + verdict" where
  "decide lib s lookback current_close previous_high =
     (if notna previous_high \<and> fgt (Some current_close) previous_high then
        (case iloc (rolling 14 1 (fl_mean lib 14) (tr_column lib s)) (- 1) of
           Inl e \<Rightarrow> Inl e
         | Inr atr \<Rightarrow>
            (let breakout_size = fsub lib (Some current_close) previous_high in
             case iloc (rolling lookback 1 (fl_mean lib lookback)
                          (map (\<lambda>c. Some (fl_int lib (volume c))) s)) (- 1) of
               Inl e \<Rightarrow> Inl e
             | Inr avg_volume \<Rightarrow>
                (case iloc (map volume s) (- 1) of
                   Inl e \<Rightarrow> Inl e
                 | Inr current_volume \<Rightarrow>
                    (let dets = mk_details current_close (the previous_high) breakout_size
                                  atr current_volume avg_volume
                     in if fgt breakout_size atr then
                          if fgt (Some (fl_int lib current_volume)) (fmul lib (Some 1.5) avg_volume)
                          then Inr (True, ''Full Breakout'', dets)
                          else Inr (True, ''Partial Breakout - Low Volume'', dets)
                        else Inr (True, ''Partial Breakout - Small Size'', dets)))))
      else Inr (False, ''No Breakout'', []))"

text \<open>
  Lines 170 to 213 on the sorted frame \<open>s\<close>. \<^verbatim>\<open>rolling\<close> raises ValueError for a window
  below 1 (as \<^verbatim>\<open>min_periods\<close> is 1); the two \<^verbatim>\<open>iloc\<close> reads raise IndexError out of
  range.
\<close>

definition classify_sorted :: "library \<Rightarrow> frame \<Rightarrow> int \<Rightarrow> error + verdict" where
  "classify_sorted lib s lookback =
     (if lookback < 1 then Inl ValueError
      else
        let highest_high = rolling (nat lookback) 1 (window_max (nat lookback))
                             (map (\<lambda>c. Some (high c)) s) in
        case iloc (map close s) (- 1) of
          Inl e \<Rightarrow> Inl e
        | Inr current_close \<Rightarrow>
           (case iloc highest_high (- 2) of
              Inl e \<Rightarrow> Inl e
            | Inr previous_high \<Rightarrow> decide lib s (nat lookback) current_close previous_high))"

text \<open>
  \<^verbatim>\<open>identify_breakout(df, symbol, lookback)\<close>. The symbol is used for logging only and is
  left out. The first component of the result is the caller's frame after the call
  (line 168 assigns into the caller's object; line 169 rebinds the local name to a
  sorted copy, so nothing after it touches the caller's frame). The second component is
  the returned tuple, or the exception raised.
\<close>

definition identify_breakout :: "library \<Rightarrow> frame \<Rightarrow> int \<Rightarrow> frame \<times> (error + verdict)" where
  "identify_breakout lib df lookback =
     (if int (length df) < lookback then (df, Inr (False, ''Insufficient Data'', []))
      else
        case to_datetime (read_date lib) (map timestamp df) of
          None \<Rightarrow> (df, Inl ParserError)
        | Some ts \<Rightarrow>
           (let df1 = set_timestamp df ts;
                s = sort_values (tie_rank lib) ts df1
            in (df1, classify_sorted lib s lookback)))"

section \<open>The scan orchestrator\<close>

text \<open>
  \<^verbatim>\<open>scan_for_breakouts(connector, instrument_manager, symbols)\<close>. The two collaborators
  are parameters: \<open>lookup\<close> is \<^verbatim>\<open>instrument_manager.get_symbol_token\<close>, and \<open>fetch\<close> is
  \<^verbatim>\<open>connector.get_historical_data\<close>, which may answer differently from call to call:
  it takes the connector's state \<open>'c\<close> and returns the next one with its response. The
  interval and the two dates of the request are computed from the clock and only passed
  through; they are part of the connector's state here. A response is an exception, or
  the returned value: \<^verbatim>\<open>None\<close> or a frame (possibly empty).
\<close>

datatype response = Raises | Returns "frame option"

text \<open>
  The variables of one call: the connector, \<^verbatim>\<open>delay\<close>, the result list
  \<^verbatim>\<open>breakout_stocks\<close>, and the arguments of the \<^verbatim>\<open>time.sleep\<close> calls so far, in order.
\<close>

record 'c scan_state =
  conn :: 'c
  delay :: int
  slept :: "int list"
  breakout_stocks :: "details list"

text \<open>
  Lines 228 to 246, the body of the \<^verbatim>\<open>try\<close>: one request, and the classification of a
  non-empty frame with the default \<^verbatim>\<open>lookback\<close> of 20. The second component is the
  exception that leaves the body, if any: one raised by the request or by
  \<^verbatim>\<open>identify_breakout\<close>. The fetched frame is dropped after the call.
\<close>

definition attempt ::
  "('c \<Rightarrow> string \<Rightarrow> response \<times> 'c) \<Rightarrow> library \<Rightarrow> string \<Rightarrow> string \<Rightarrow>
   'c scan_state \<Rightarrow> 'c scan_state \<times> error option" where
  "attempt fetch lib symbol symbol_token st =
     (case fetch (conn st) symbol_token of
        (Raises, c) \<Rightarrow> (st\<lparr>conn := c\<rparr>, Some FetchError)
      | (Returns None, c) \<Rightarrow> (st\<lparr>conn := c\<rparr>, None)
      | (Returns (Some df), c) \<Rightarrow>
          if df = [] then (st\<lparr>conn := c\<rparr>, None)
          else
            (case snd (identify_breakout lib df 20) of
               Inl e \<Rightarrow> (st\<lparr>conn := c\<rparr>, Some e)
             | Inr (is_breakout, breakout_type, dets) \<Rightarrow>
                 if is_breakout
                 then (st\<lparr>conn := c,
                          breakout_stocks := breakout_stocks st @
                            [(''symbol'', PyStr symbol) #
                             (''breakout_type'', PyStr breakout_type) # dets]\<rparr>, None)
                 else (st\<lparr>conn := c\<rparr>, None)))"

text \<open>
  Lines 226 to 252, \<^verbatim>\<open>for _ in range(n)\<close> with its \<^verbatim>\<open>else\<close>: without an exception the
  loop is left (\<^verbatim>\<open>break\<close>); an exception is caught, \<^verbatim>\<open>delay\<close> is doubled, the call
  sleeps for the new \<^verbatim>\<open>delay\<close> and the next round starts. When the rounds are used up
  the failure is logged only.
\<close>

fun retry ::
  "nat \<Rightarrow> ('c \<Rightarrow> string \<Rightarrow> response \<times> 'c) \<Rightarrow> library \<Rightarrow> string \<Rightarrow> string \<Rightarrow>
   'c scan_state \<Rightarrow> 'c scan_state" where
  "retry 0 fetch lib symbol symbol_token st = st"
| "retry (Suc n) fetch lib symbol symbol_token st =
     (case attempt fetch lib symbol symbol_token st of
        (st', None) \<Rightarrow> st'
      | (st', Some e) \<Rightarrow>
          retry n fetch lib symbol symbol_token
            (st'\<lparr>delay := 2 * delay st', slept := slept st' @ [2 * delay st']\<rparr>))"

text \<open>
  Lines 220 to 256, one round of the loop over the symbols. A token that is \<^verbatim>\<open>None\<close> or
  the empty string is falsy. The round ends with \<^verbatim>\<open>time.sleep(delay)\<close>.
\<close>

definition scan_symbol ::
  "(string \<Rightarrow> string option) \<Rightarrow> ('c \<Rightarrow> string \<Rightarrow> response \<times> 'c) \<Rightarrow> library \<Rightarrow>
   string \<Rightarrow> 'c scan_state \<Rightarrow> 'c scan_state" where
  "scan_symbol lookup fetch lib symbol st =
     (let st' = (case lookup symbol of
                   None \<Rightarrow> st
                 | Some symbol_token \<Rightarrow>
                     if symbol_token = [] then st
                     else retry 3 fetch lib symbol symbol_token st)
      in st'\<lparr>slept := slept st' @ [delay st']\<rparr>)"

text \<open>The whole call, with its final variables, and the value it returns.\<close>

definition scan_run ::
  "(string \<Rightarrow> string option) \<Rightarrow> ('c \<Rightarrow> string \<Rightarrow> response \<times> 'c) \<Rightarrow> library \<Rightarrow>
   'c \<Rightarrow> string list \<Rightarrow> 'c scan_state" where
  "scan_run lookup fetch lib c symbols =
     fold (scan_symbol lookup fetch lib) symbols
       \<lparr>conn = c, delay = 1, slept = [], breakout_stocks = []\<rparr>"

definition scan_for_breakouts ::
  "(string \<Rightarrow> string option) \<Rightarrow> ('c \<Rightarrow> string \<Rightarrow> response \<times> 'c) \<Rightarrow> library \<Rightarrow>
   'c \<Rightarrow> string list \<Rightarrow> details list" where
  "scan_for_breakouts lookup fetch lib c symbols =
     breakout_stocks (scan_run lookup fetch lib c symbols)"

section \<open>The true range as the specification words it\<close>

text \<open>
  The specification's true range of row \<open>i\<close>: the largest of \<open>high - low\<close>,
  \<open>|high - prev_close|\<close> and \<open>|low - prev_close|\<close>, and just \<open>high - low\<close> for the first
  row. Its ATR is the rolling mean of this column, window 14, at the last row.
\<close>

definition true_range :: "library \<Rightarrow> frame \<Rightarrow> nat \<Rightarrow> real" where
  "true_range lib s i =
     (if i = 0 then fl_sub lib (high (s ! 0)) (low (s ! 0))
      else max (fl_sub lib (high (s ! i)) (low (s ! i)))
               (max \<bar>fl_sub lib (high (s ! i)) (close (s ! (i - 1)))\<bar>
                    \<bar>fl_sub lib (low (s ! i)) (close (s ! (i - 1)))\<bar>))"

definition atr_spec :: "library \<Rightarrow> frame \<Rightarrow> real" where
  "atr_spec lib s =
     fl_mean lib 14 (map (\<lambda>i. Some (true_range lib s i)) [0..<length s]) (length s - 1)"

section \<open>Examples\<close>

text \<open>
  A parser for the examples: it reads an ISO date \<^verbatim>\<open>YYYY-MM-DD\<close> as the number of days
  from 1970-01-01 to that day, so that \<^verbatim>\<open>2024-01-01\<close> is day 19723, and raises on every
  other string.
\<close>

definition digits :: "string \<Rightarrow> nat option" where
  "digits s =
     (if s \<noteq> [] \<and> list_all (\<lambda>c. 48 \<le> (of_char c :: nat) \<and> (of_char c :: nat) \<le> 57) s
      then Some (fold (\<lambda>c n. 10 * n + (of_char c - 48)) s 0) else None)"

definition days_in_month :: "nat \<Rightarrow> nat \<Rightarrow> nat" where
  "days_in_month y m =
     (if m = 2 then (if y mod 4 = 0 \<and> (y mod 100 \<noteq> 0 \<or> y mod 400 = 0) then 29 else 28)
      else if m = 4 \<or> m = 6 \<or> m = 9 \<or> m = 11 then 30 else 31)"

definition days_from_civil :: "int \<Rightarrow> int \<Rightarrow> int \<Rightarrow> int" where
  "days_from_civil y m d =
     (let y' = (if m \<le> 2 then y - 1 else y);
          era = y' div 400;
          yoe = y' - era * 400;
          doy = (153 * (if 2 < m then m - 3 else m + 9) + 2) div 5 + d - 1;
          doe = yoe * 365 + yoe div 4 - yoe div 100 + doy
      in era * 146097 + doe - 719468)"

definition iso_date :: "string \<Rightarrow> int option" where
  "iso_date s =
     (if length s = 10 \<and> s ! 4 = CHR ''-'' \<and> s ! 7 = CHR ''-'' then
        (case (digits (take 4 s), digits (take 2 (drop 5 s)), digits (drop 8 s)) of
           (Some y, Some m, Some d) \<Rightarrow>
             if 1 \<le> m \<and> m \<le> 12 \<and> 1 \<le> d \<and> d \<le> days_in_month y m
             then Some (days_from_civil (int y) (int m) (int d)) else None
         | _ \<Rightarrow> None)
      else None)"

text \<open>
  The library of the examples: ISO dates, equal timestamps left in their input order,
  and arithmetic without rounding. The numbers of the examples below are small
  integers and halves, on which double arithmetic does not round either.
\<close>

definition exact_library :: library where
  "exact_library =
     \<lparr>read_date = iso_date, tie_rank = (\<lambda>ts i. 0), fl_sub = (\<lambda>a b. a - b),
      fl_mul = (\<lambda>a b. a * b), fl_int = real_of_int, fl_mean = window_mean\<rparr>"

text \<open>
  A quiet candle and a candle that closes far above it, both with the timestamp
  already a datetime.
\<close>

definition quiet :: "int \<Rightarrow> candle" where
  "quiet t = \<lparr>timestamp = Datetime t, open_price = 100, high = 101, low = 99,
              close = 100, volume = 1000\<rparr>"

definition surge :: "int \<Rightarrow> candle" where
  "surge t = \<lparr>timestamp = Datetime t, open_price = 100, high = 153, low = 95,
              close = 150, volume = 4000\<rparr>"

text \<open>
  Three rows as the feed delivers them, the timestamps strings and out of order:
  read and sorted, they are \<open>quiet 19723\<close>, \<open>quiet 19724\<close>, \<open>surge 19725\<close>.
\<close>

definition fed :: frame where
  "fed = [(quiet 0)\<lparr>timestamp := Str ''2024-01-02''\<rparr>,
          (surge 0)\<lparr>timestamp := Str ''2024-01-03''\<rparr>,
          (quiet 0)\<lparr>timestamp := Str ''2024-01-01''\<rparr>]"

text \<open>Fifteen quiet days and a surge on the sixteenth.\<close>

definition calm_then_surge :: frame where
  "calm_then_surge = map quiet [1..15] @ [surge 16]"

text \<open>
  Twenty-four quiet days and a surge on the twenty-fifth: enough rows for the default
  \<open>lookback\<close> of 20.
\<close>

definition month :: frame where
  "month = map quiet [1..24] @ [surge 25]"

text \<open>
  A connector that answers from a script: its state is the number of requests so far,
  and past the end of the script it returns \<^verbatim>\<open>None\<close>. And a lookup that knows every
  symbol under its own name as token.
\<close>

definition scripted :: "response list \<Rightarrow> nat \<Rightarrow> string \<Rightarrow> response \<times> nat" where
  "scripted rs n symbol_token = ((if n < length rs then rs ! n else Returns None), Suc n)"

definition same_token :: "string \<Rightarrow> string option" where
  "same_token symbol = Some symbol"

text \<open>
  An arithmetic that rounds every result to \<open>k\<close> binary places; doubles between 2 and 4
  have 51. And four rows on which rounding decides the category: the last close is 1
  plus the double nearest to 7/3, and the three true ranges 1/8, 1/8 and 27/4 have the
  mean 7/3.
\<close>

definition nearest :: "nat \<Rightarrow> real \<Rightarrow> real" where
  "nearest k x = real_of_int (round (x * 2 ^ k)) / 2 ^ k"

definition rounding_library :: "nat \<Rightarrow> library" where
  "rounding_library k =
     exact_library\<lparr>fl_sub := (\<lambda>a b. nearest k (a - b)),
                   fl_mul := (\<lambda>a b. nearest k (a * b)),
                   fl_mean := (\<lambda>w xs i. nearest k (window_mean w xs i))\<rparr>"

definition narrow :: "int \<Rightarrow> candle" where
  "narrow t = \<lparr>timestamp = Datetime t, open_price = 15 / 16, high = 1, low = 7 / 8,
               close = 15 / 16, volume = 1000\<rparr>"

definition close_call :: frame where
  "close_call =
     [narrow 1, narrow 2, narrow 3,
      \<lparr>timestamp = Datetime 4, open_price = 1, high = 29 / 4, low = 1 / 2,
       close = 1 + 5254199565265579 / 2 ^ 51, volume = 4000\<rparr>]"

text \<open>A ranking of equal timestamps that puts later rows first.\<close>

definition later_first :: "int list \<Rightarrow> nat \<Rightarrow> nat" where
  "later_first ts i = length ts - i"

section \<open>Facts about the library functions\<close>

lemma length_rolling: "length (rolling w m agg xs) = length xs"
  by (simp add: rolling_def)

lemma rolling_nth:
  "i < length xs \<Longrightarrow> rolling w m agg xs ! i =
     (if m \<le> length (observations (window w i xs)) then Some (agg xs i) else None)"
  by (simp add: rolling_def)

lemma iloc_last: "iloc xs (- 1) = (if xs = [] then Inl IndexError else Inr (last xs))"
proof (cases "xs = []")
  case True
  then show ?thesis by (simp add: iloc_def)
next
  case False
  then have "0 < length xs" by simp
  then have "nat (int (length xs) + - 1) = length xs - 1" "1 \<le> int (length xs)"
    by linarith+
  with False show ?thesis by (simp add: iloc_def last_conv_nth)
qed

lemma iloc_last_but_one:
  "iloc xs (- 2) = (if length xs < 2 then Inl IndexError else Inr (xs ! (length xs - 2)))"
proof (cases "length xs < 2")
  case True
  then show ?thesis by (simp add: iloc_def)
next
  case False
  then have "nat (int (length xs) + - 2) = length xs - 2" by linarith
  with False show ?thesis by (simp add: iloc_def)
qed

lemma to_datetime_Some:
  "to_datetime parse col = Some ts \<Longrightarrow> ts = map (\<lambda>c. the (to_dt parse c)) col"
  by (simp add: to_datetime_def split: if_splits)

lemma to_datetime_length: "to_datetime parse col = Some ts \<Longrightarrow> length ts = length col"
  by (auto dest: to_datetime_Some)

lemma to_datetime_None_iff:
  "to_datetime parse col = None \<longleftrightarrow> (\<exists>c \<in> set col. to_dt parse c = None)"
  by (auto simp: to_datetime_def list_all_iff)

lemma length_set_timestamp: "length (set_timestamp df ts) = min (length df) (length ts)"
  by (simp add: set_timestamp_def)

lemma length_sort_values: "length (sort_values tie ts df) = min (length ts) (length df)"
  by (simp add: sort_values_def)

lemma length_sorted_frame:
  "to_datetime parse (map timestamp df) = Some ts \<Longrightarrow>
   length (sort_values tie ts (set_timestamp df ts)) = length df"
  by (simp add: length_sort_values length_set_timestamp to_datetime_length)

lemma window_map: "window w i (map f xs) = map f (window w i xs)"
  by (simp add: window_def take_map drop_map)

lemma observations_Some: "observations (map (\<lambda>c. Some (f c)) ys) = map f ys"
  by (induction ys) (simp_all add: observations_def notna_def)

lemma length_window: "i < length xs \<Longrightarrow> length (window w i xs) = min (Suc i) w"
  by (auto simp add: window_def min_def)

lemma window_zero: "window 0 i xs = []"
  by (simp add: window_def)

lemma window_ge1: "i < length xs \<Longrightarrow> 0 < w \<Longrightarrow> Suc 0 \<le> length (window w i xs)"
  by (simp add: length_window)

lemma length_tr_column: "length (tr_column lib s) = length s"
  by (simp add: tr_column_def shift1_def)

lemma shift1_nth: "i < length xs \<Longrightarrow> shift1 xs ! i = (if i = 0 then None else xs ! (i - 1))"
  by (cases i) (simp_all add: shift1_def)

lemma tr_column_nth:
  "i < length s \<Longrightarrow> tr_column lib s ! i =
     (if i = 0 then None
      else Some (max (fl_sub lib (high (s ! i)) (low (s ! i)))
                     (max \<bar>fl_sub lib (high (s ! i)) (close (s ! (i - 1)))\<bar>
                          \<bar>fl_sub lib (low (s ! i)) (close (s ! (i - 1)))\<bar>)))"
  by (simp add: tr_column_def shift1_nth shift1_def)

section \<open>The length guard\<close>

text \<open>
  C2. A frame with fewer than \<open>lookback\<close> rows is answered at once with
  \<^verbatim>\<open>(False, "Insufficient Data", {})\<close>: no exception, an empty details dictionary, the
  caller's frame as it was, and nothing depends on the rows or on the libraries, so
  nothing is computed from them. (A \<open>lookback\<close> above a length is positive.)
\<close>

theorem insufficient_data:
  "int (length df) < lookback \<Longrightarrow>
   identify_breakout lib df lookback = (df, Inr (False, ''Insufficient Data'', []))"
  by (simp add: identify_breakout_def)

theorem insufficient_data_witness:
  "int (length (replicate 19 (surge 1))) < 20 \<and>
   identify_breakout exact_library (replicate 19 (surge 1)) 20 =
     (replicate 19 (surge 1), Inr (False, ''Insufficient Data'', []))"
  using insufficient_data [of "replicate 19 (surge 1)" 20 exact_library] by simp

section \<open>Facts about the classifier\<close>

lemma highest_high_nth:
  assumes "i < length s" "0 < w"
  shows "rolling w 1 (window_max w) (map (\<lambda>c. Some (high c)) s) ! i
           = Some (list_max (map high (window w i s)))"
proof -
  have "Suc 0 \<le> length (window w i s)" using assms by (rule window_ge1)
  then show ?thesis
    using assms by (simp add: rolling_nth window_map observations_Some window_max_def)
qed

lemma zero_window:
  "i < length s \<Longrightarrow> rolling 0 1 agg (map (\<lambda>c. Some (f c)) s) ! i = None"
  by (simp add: rolling_nth window_zero observations_def)

lemma avg_volume_last:
  assumes "s \<noteq> []" "0 < w"
  shows "iloc (rolling w 1 (fl_mean lib w) (map (\<lambda>c. Some (fl_int lib (volume c))) s)) (- 1)
           = Inr (Some (fl_mean lib w (map (\<lambda>c. Some (fl_int lib (volume c))) s)
                          (length s - 1)))"
proof -
  let ?xs = "map (\<lambda>c. Some (fl_int lib (volume c))) s"
  let ?col = "rolling w 1 (fl_mean lib w) ?xs"
  have n: "length s - 1 < length s" using assms by (cases s) simp_all
  then have "Suc 0 \<le> length (window w (length s - 1) s)" using assms by (simp add: window_ge1)
  then have "?col ! (length s - 1) = Some (fl_mean lib w ?xs (length s - 1))"
    using n by (simp add: rolling_nth window_map observations_Some)
  moreover have "?col \<noteq> []" using assms by (simp add: rolling_def)
  ultimately show ?thesis
    by (simp add: iloc_last last_conv_nth length_rolling)
qed

lemma observations_positive_rows:
  "\<forall>j \<in> set js. j \<noteq> 0 \<Longrightarrow>
   observations (map (\<lambda>i. if i = (0::nat) then None else Some (f i)) js) = map f js"
  by (induction js) (auto simp add: observations_def notna_def)

lemma observations_rows:
  "observations (map (\<lambda>i. if i = 0 then None else Some (f i)) [a..<n]) = map f [max 1 a..<n]"
proof (cases "a = 0")
  case False
  then have "max 1 a = a" by simp
  moreover have "\<forall>j \<in> set [a..<n]. j \<noteq> 0" using False by simp
  ultimately show ?thesis by (simp add: observations_positive_rows del: One_nat_def)
next
  case True
  show ?thesis
  proof (cases "n = 0")
    case True
    with \<open>a = 0\<close> show ?thesis by (simp add: observations_def)
  next
    case False
    then have "[0..<n] = 0 # [1..<n]" by (simp add: upt_conv_Cons)
    moreover have "\<forall>j \<in> set [1..<n]. j \<noteq> 0" by simp
    ultimately show ?thesis
      using \<open>a = 0\<close> observations_positive_rows [of "[1..<n]" f]
      by (simp add: observations_def notna_def del: One_nat_def)
  qed
qed

text \<open>
  The true ranges of the rows after the first, as the code computes them: \<open>true_range\<close>
  agrees with the column there.
\<close>

lemma tr_column_rows:
  "tr_column lib s
     = map (\<lambda>i. if i = 0 then None else Some (true_range lib s i)) [0..<length s]"
  by (rule nth_equalityI) (simp_all add: length_tr_column tr_column_nth true_range_def)

lemma atr_window:
  assumes "s \<noteq> []"
  shows "observations (window 14 (length s - 1) (tr_column lib s))
           = map (true_range lib s) [max 1 (length s - 14)..<length s]"
proof -
  from assms have n: "Suc (length s - 1) = length s" by (cases s) simp_all
  have "window 14 (length s - 1) (tr_column lib s) = drop (length s - 14) (tr_column lib s)"
    by (simp add: window_def n length_tr_column)
  also have "\<dots> = map (\<lambda>i. if i = 0 then None else Some (true_range lib s i))
                      [length s - 14..<length s]"
    by (subst tr_column_rows) (simp add: drop_map)
  finally show ?thesis by (simp only: observations_rows)
qed

lemma atr_last:
  assumes "2 \<le> length s"
  shows "iloc (rolling 14 1 (fl_mean lib 14) (tr_column lib s)) (- 1)
           = Inr (Some (fl_mean lib 14 (tr_column lib s) (length s - 1)))"
proof -
  let ?i = "length s - 1"
  from assms have ne: "s \<noteq> []" by auto
  have i: "?i < length (tr_column lib s)" using assms by (simp add: length_tr_column)
  have "max 1 (length s - 14) < length s" using assms by auto
  then have "1 \<le> length s - max 1 (length s - 14)" by linarith
  then have "1 \<le> length (observations (window 14 ?i (tr_column lib s)))"
    by (simp add: atr_window [OF ne] del: One_nat_def)
  then have "rolling 14 1 (fl_mean lib 14) (tr_column lib s) ! ?i
               = Some (fl_mean lib 14 (tr_column lib s) ?i)"
    using i by (simp add: rolling_nth del: One_nat_def)
  moreover have "rolling 14 1 (fl_mean lib 14) (tr_column lib s) \<noteq> []"
    using i by (auto simp: rolling_def)
  ultimately show ?thesis
    by (simp add: iloc_last last_conv_nth length_rolling length_tr_column)
qed

lemma close_last: "s \<noteq> [] \<Longrightarrow> iloc (map close s) (- 1) = Inr (close (last s))"
  by (simp add: iloc_last last_map)

lemma volume_last: "s \<noteq> [] \<Longrightarrow> iloc (map volume s) (- 1) = Inr (volume (last s))"
  by (simp add: iloc_last last_map)

lemma decide_no_breakout:
  "previous_high = None \<or> (\<exists>p. previous_high = Some p \<and> current_close \<le> p) \<Longrightarrow>
   decide lib s w current_close previous_high = Inr (False, ''No Breakout'', [])"
  by (auto simp: decide_def notna_def)

lemma decide_breakout:
  assumes "p < current_close"
    and "iloc (rolling 14 1 (fl_mean lib 14) (tr_column lib s)) (- 1) = Inr (Some atr)"
    and "iloc (rolling w 1 (fl_mean lib w) (map (\<lambda>c. Some (fl_int lib (volume c))) s)) (- 1)
           = Inr (Some av)"
    and "iloc (map volume s) (- 1) = Inr v"
  shows "decide lib s w current_close (Some p) =
     Inr (True,
          (if fl_sub lib current_close p \<le> atr then ''Partial Breakout - Small Size''
           else if fl_int lib v \<le> fl_mul lib 1.5 av then ''Partial Breakout - Low Volume''
           else ''Full Breakout''),
          mk_details current_close p (Some (fl_sub lib current_close p)) (Some atr) v (Some av))"
  using assms by (simp add: decide_def notna_def Let_def not_less)

lemma classify_sorted_read:
  assumes "1 \<le> lookback" "s \<noteq> []"
  shows "classify_sorted lib s lookback =
     (case iloc (rolling (nat lookback) 1 (window_max (nat lookback))
                   (map (\<lambda>c. Some (high c)) s)) (- 2) of
        Inl e \<Rightarrow> Inl e
      | Inr previous_high \<Rightarrow> decide lib s (nat lookback) (close (last s)) previous_high)"
  using assms by (simp add: classify_sorted_def close_last)

lemma identify_breakout_sorted:
  assumes "to_datetime (read_date lib) (map timestamp df) = Some ts"
    "lookback \<le> int (length df)"
  shows "snd (identify_breakout lib df lookback)
           = classify_sorted lib (sort_values (tie_rank lib) ts (set_timestamp df ts)) lookback"
  using assms by (simp add: identify_breakout_def Let_def)

lemma read_previous_high:
  assumes "iloc (rolling w 1 agg (map (\<lambda>c. Some (f c)) s)) (- 2) = Inr (Some p)"
  shows "2 \<le> length s \<and> 0 < w"
proof -
  from assms have n: "2 \<le> length s"
    by (simp add: iloc_last_but_one length_rolling split: if_splits)
  then have i: "length s - 2 < length s" by simp
  have "0 < w"
  proof (rule ccontr)
    assume "\<not> 0 < w"
    then have "w = 0" by simp
    with assms n i show False
      by (simp add: iloc_last_but_one length_rolling zero_window del: One_nat_def)
  qed
  with n show ?thesis by simp
qed

lemma previous_high_defined:
  assumes "2 \<le> length s" "0 < w"
  shows "iloc (rolling w 1 (window_max w) (map (\<lambda>c. Some (high c)) s)) (- 2)
           = Inr (Some (list_max (map high (window w (length s - 2) s))))"
  using assms by (simp add: iloc_last_but_one length_rolling highest_high_nth del: One_nat_def)

lemma classify_sorted_total:
  assumes "2 \<le> length s" "1 \<le> lookback"
  shows "\<exists>v. classify_sorted lib s lookback = Inr v"
proof -
  from assms have ne: "s \<noteq> []" and w: "0 < nat lookback" by auto
  let ?p = "list_max (map high (window (nat lookback) (length s - 2) s))"
  have eq: "classify_sorted lib s lookback
              = decide lib s (nat lookback) (close (last s)) (Some ?p)"
    by (simp add: classify_sorted_read [OF assms(2) ne] previous_high_defined [OF assms(1) w]
        del: One_nat_def)
  note atr = atr_last [OF assms(1)]
  show ?thesis
  proof (cases "?p < close (last s)")
    case True
    from decide_breakout [OF True atr avg_volume_last [OF ne w] volume_last [OF ne]]
    have "\<exists>v. decide lib s (nat lookback) (close (last s)) (Some ?p) = Inr v" by blast
    with eq show ?thesis by simp
  next
    case False
    then have "decide lib s (nat lookback) (close (last s)) (Some ?p)
                 = Inr (False, ''No Breakout'', [])"
      by (intro decide_no_breakout) simp
    with eq show ?thesis by metis
  qed
qed

lemma classify_sorted_single: "classify_sorted lib [c] 1 = Inl IndexError"
  by (simp add: classify_sorted_def iloc_def rolling_def)

section \<open>The breakout branch\<close>

text \<open>
  C1. Let the timestamps of \<open>df\<close> be readable, let \<open>s\<close> be the sorted frame, let \<open>df\<close>
  have at least \<open>lookback\<close> rows, and let the last close be strictly above the rolling
  high read at the second-to-last row. Then \<^verbatim>\<open>identify_breakout\<close> returns
  \<^verbatim>\<open>is_breakout = True\<close>; the ATR and the average volume it reads at the last row are
  numbers; with \<open>breakout_size\<close> the computed difference of the last close and
  \<open>previous_high\<close>, the category is \<^verbatim>\<open>Partial Breakout - Small Size\<close> if
  \<open>breakout_size \<le> atr\<close>, else \<^verbatim>\<open>Partial Breakout - Low Volume\<close> if
  \<open>current_volume \<le> 1.5 * avg_volume\<close> (the product as computed), else
  \<^verbatim>\<open>Full Breakout\<close>, so equality falls on the partial side both times; and the details
  hold exactly the six entries
  \<^verbatim>\<open>current_close, previous_high, breakout_size, atr, current_volume, avg_volume\<close>.
  This holds however the libraries round and order equal timestamps. That \<open>lookback\<close>
  is positive follows from the read of the rolling high.
\<close>

theorem breakout_categories:
  assumes parsed: "to_datetime (read_date lib) (map timestamp df) = Some ts"
    and sorted: "s = sort_values (tie_rank lib) ts (set_timestamp df ts)"
    and len: "lookback \<le> int (length df)"
    and ph: "iloc (rolling (nat lookback) 1 (window_max (nat lookback))
                     (map (\<lambda>c. Some (high c)) s)) (- 2)
               = Inr (Some previous_high)"
    and brk: "previous_high < close (last s)"
  shows "\<exists>atr avg_volume.
      iloc (rolling 14 1 (fl_mean lib 14) (tr_column lib s)) (- 1) = Inr (Some atr) \<and>
      iloc (rolling (nat lookback) 1 (fl_mean lib (nat lookback))
              (map (\<lambda>c. Some (fl_int lib (volume c))) s)) (- 1)
        = Inr (Some avg_volume) \<and>
      snd (identify_breakout lib df lookback) =
        Inr (True,
             (if fl_sub lib (close (last s)) previous_high \<le> atr
              then ''Partial Breakout - Small Size''
              else if fl_int lib (volume (last s)) \<le> fl_mul lib 1.5 avg_volume
                   then ''Partial Breakout - Low Volume''
              else ''Full Breakout''),
             [(''current_close'', PyFloat (Some (close (last s)))),
              (''previous_high'', PyFloat (Some previous_high)),
              (''breakout_size'', PyFloat (Some (fl_sub lib (close (last s)) previous_high))),
              (''atr'', PyFloat (Some atr)),
              (''current_volume'', PyInt (volume (last s))),
              (''avg_volume'', PyFloat (Some avg_volume))])"
proof -
  from read_previous_high [OF ph] have n: "2 \<le> length s" and w: "0 < nat lookback"
    by simp_all
  then have ne: "s \<noteq> []" and lb: "1 \<le> lookback" by auto
  note atr = atr_last [OF n, of lib]
  note av = avg_volume_last [OF ne w, of lib]
  have "snd (identify_breakout lib df lookback) = classify_sorted lib s lookback"
    using identify_breakout_sorted [OF parsed len] sorted by simp
  also have "\<dots> = decide lib s (nat lookback) (close (last s)) (Some previous_high)"
    using ph by (simp add: classify_sorted_read [OF lb ne])
  also note decide_breakout [OF brk atr av volume_last [OF ne]]
  finally show ?thesis using atr av by (simp add: mk_details_def)
qed

theorem breakout_categories_witness:
  "to_datetime (read_date exact_library) (map timestamp fed) = Some [19724, 19725, 19723] \<and>
   [quiet 19723, quiet 19724, surge 19725]
     = sort_values (tie_rank exact_library) [19724, 19725, 19723]
         (set_timestamp fed [19724, 19725, 19723]) \<and>
   3 \<le> int (length fed) \<and>
   iloc (rolling (nat 3) 1 (window_max (nat 3))
           (map (\<lambda>c. Some (high c)) [quiet 19723, quiet 19724, surge 19725])) (- 2)
     = Inr (Some 101) \<and>
   101 < close (last [quiet 19723, quiet 19724, surge 19725]) \<and>
   snd (identify_breakout exact_library fed 3) =
     Inr (True, ''Full Breakout'',
          [(''current_close'', PyFloat (Some 150)), (''previous_high'', PyFloat (Some 101)),
           (''breakout_size'', PyFloat (Some 49)), (''atr'', PyFloat (Some 30)),
           (''current_volume'', PyInt 4000), (''avg_volume'', PyFloat (Some 2000))])"
proof -
  let ?s = "[quiet 19723, quiet 19724, surge 19725]"
  let ?L = exact_library
  have h1: "to_datetime (read_date ?L) (map timestamp fed) = Some [19724, 19725, 19723]"
    by code_simp
  have h2: "?s = sort_values (tie_rank ?L) [19724, 19725, 19723]
                   (set_timestamp fed [19724, 19725, 19723])"
    by code_simp
  have h3: "3 \<le> int (length fed)" by code_simp
  have h4: "iloc (rolling (nat 3) 1 (window_max (nat 3)) (map (\<lambda>c. Some (high c)) ?s)) (- 2)
              = Inr (Some 101)"
    by code_simp
  have h5: "101 < close (last ?s)" by code_simp
  from breakout_categories [OF h1 h2 h3 h4 h5] obtain atr av where
    a: "iloc (rolling 14 1 (fl_mean ?L 14) (tr_column ?L ?s)) (- 1) = Inr (Some atr)" and
    b: "iloc (rolling (nat 3) 1 (fl_mean ?L (nat 3))
                (map (\<lambda>c. Some (fl_int ?L (volume c))) ?s)) (- 1)
          = Inr (Some av)" and
    r: "snd (identify_breakout ?L fed 3) =
        Inr (True,
             (if fl_sub ?L (close (last ?s)) 101 \<le> atr then ''Partial Breakout - Small Size''
              else if fl_int ?L (volume (last ?s)) \<le> fl_mul ?L 1.5 av
                   then ''Partial Breakout - Low Volume''
              else ''Full Breakout''),
             [(''current_close'', PyFloat (Some (close (last ?s)))),
              (''previous_high'', PyFloat (Some 101)),
              (''breakout_size'', PyFloat (Some (fl_sub ?L (close (last ?s)) 101))),
              (''atr'', PyFloat (Some atr)),
              (''current_volume'', PyInt (volume (last ?s))),
              (''avg_volume'', PyFloat (Some av))])"
    by (elim exE conjE)
  have "iloc (rolling 14 1 (fl_mean ?L 14) (tr_column ?L ?s)) (- 1) = Inr (Some 30)"
    by code_simp
  with a have atr: "atr = 30" by simp
  have "iloc (rolling (nat 3) 1 (fl_mean ?L (nat 3))
                (map (\<lambda>c. Some (fl_int ?L (volume c))) ?s)) (- 1)
          = Inr (Some 2000)" by code_simp
  with b have av: "av = 2000" by simp
  from r have "snd (identify_breakout ?L fed 3) =
     Inr (True, ''Full Breakout'',
          [(''current_close'', PyFloat (Some 150)), (''previous_high'', PyFloat (Some 101)),
           (''breakout_size'', PyFloat (Some 49)), (''atr'', PyFloat (Some 30)),
           (''current_volume'', PyInt 4000), (''avg_volume'', PyFloat (Some 2000))])"
    unfolding atr av by (simp add: surge_def exact_library_def)
  with h1 h2 h3 h4 h5 show ?thesis by (intro conjI)
qed

text \<open>
  The tie of \<open>breakout_size\<close> and \<open>atr\<close> is a matter of rounding. On the four rows
  \<open>close_call\<close> the mean of the true ranges is 7/3 and the last close is 1 plus the
  double nearest to 7/3: without rounding the size exceeds the ATR, and with results
  rounded to 51 binary places the two are equal and the category is
  \<^verbatim>\<open>Partial Breakout - Small Size\<close>.
\<close>

lemma rounding_decides:
  "snd (identify_breakout exact_library close_call 4) =
     Inr (True, ''Full Breakout'',
          [(''current_close'', PyFloat (Some (1 + 5254199565265579 / 2 ^ 51))),
           (''previous_high'', PyFloat (Some 1)),
           (''breakout_size'', PyFloat (Some (5254199565265579 / 2 ^ 51))),
           (''atr'', PyFloat (Some (7 / 3))),
           (''current_volume'', PyInt 4000), (''avg_volume'', PyFloat (Some 1750))]) \<and>
   snd (identify_breakout (rounding_library 51) close_call 4) =
     Inr (True, ''Partial Breakout - Small Size'',
          [(''current_close'', PyFloat (Some (1 + 5254199565265579 / 2 ^ 51))),
           (''previous_high'', PyFloat (Some 1)),
           (''breakout_size'', PyFloat (Some (5254199565265579 / 2 ^ 51))),
           (''atr'', PyFloat (Some (5254199565265579 / 2 ^ 51))),
           (''current_volume'', PyInt 4000), (''avg_volume'', PyFloat (Some 1750))])"
  by code_simp

section \<open>No breakout\<close>

text \<open>
  What the guard of line 177 does once \<^verbatim>\<open>previous_high\<close> has been read: for readable
  timestamps, at least \<open>lookback\<close> rows and a positive \<open>lookback\<close>, a value that is NaN or
  not below the last close gives \<^verbatim>\<open>(False, "No Breakout", {})\<close>. With columns free of NaN
  the value is a number wherever it can be read (\<open>previous_high_defined\<close>).
\<close>

lemma no_breakout_after_read:
  assumes parsed: "to_datetime (read_date lib) (map timestamp df) = Some ts"
    and sorted: "s = sort_values (tie_rank lib) ts (set_timestamp df ts)"
    and len: "lookback \<le> int (length df)"
    and lb: "1 \<le> lookback"
    and ph: "iloc (rolling (nat lookback) 1 (window_max (nat lookback))
                     (map (\<lambda>c. Some (high c)) s)) (- 2)
               = Inr previous_high"
    and low: "previous_high = None \<or> (\<exists>p. previous_high = Some p \<and> close (last s) \<le> p)"
  shows "snd (identify_breakout lib df lookback) = Inr (False, ''No Breakout'', [])"
proof -
  from ph have "2 \<le> length s"
    by (simp add: iloc_last_but_one length_rolling split: if_splits)
  then have ne: "s \<noteq> []" by auto
  have "snd (identify_breakout lib df lookback) = classify_sorted lib s lookback"
    using identify_breakout_sorted [OF parsed len] sorted by simp
  also have "\<dots> = decide lib s (nat lookback) (close (last s)) previous_high"
    using ph by (simp add: classify_sorted_read [OF lb ne])
  also have "\<dots> = Inr (False, ''No Breakout'', [])"
    using low by (rule decide_no_breakout)
  finally show ?thesis .
qed

text \<open>
  C3. The read itself is not guarded. A frame of one row with \<open>lookback = 1\<close> has at least
  \<open>lookback\<close> rows and no second-to-last row, so its \<^verbatim>\<open>previous_high\<close> is undefined; the
  result should be \<^verbatim>\<open>(False, "No Breakout", {})\<close>, but \<^verbatim>\<open>iloc[-2]\<close> raises IndexError before
  the guard of line 177 is reached.
\<close>

theorem no_breakout_single_row:
  "1 \<le> int (length [quiet 1]) \<and>
   iloc (rolling (nat 1) 1 (window_max (nat 1)) (map (\<lambda>c. Some (high c)) [quiet 1])) (- 2)
     = Inl IndexError \<and>
   snd (identify_breakout exact_library [quiet 1] 1) = Inl IndexError \<and>
   snd (identify_breakout exact_library [quiet 1] 1) \<noteq> Inr (False, ''No Breakout'', [])"
  by code_simp

section \<open>Where the classifier returns\<close>

text \<open>
  C10. With \<open>lookback = 1\<close> and a frame of exactly one row \<^verbatim>\<open>identify_breakout\<close> returns
  no verdict: it raises, and when the timestamp is readable the exception is the
  IndexError of \<^verbatim>\<open>iloc[-2]\<close>. Whenever a verdict is returned, the frame has at least two
  rows or fewer than \<open>lookback\<close> rows; and for readable timestamps and a positive
  \<open>lookback\<close> a verdict is returned in both of these cases.
\<close>

theorem single_candle_no_verdict:
  "(\<exists>e. snd (identify_breakout lib [c] 1) = Inl e) \<and>
   (to_dt (read_date lib) (timestamp c) \<noteq> None \<longrightarrow>
      snd (identify_breakout lib [c] 1) = Inl IndexError) \<and>
   (snd (identify_breakout lib df lookback) = Inr v \<longrightarrow>
      2 \<le> length df \<or> int (length df) < lookback) \<and>
   (to_datetime (read_date lib) (map timestamp df) \<noteq> None \<and> 1 \<le> lookback \<and>
      (2 \<le> length df \<or> int (length df) < lookback) \<longrightarrow>
      (\<exists>v. snd (identify_breakout lib df lookback) = Inr v))"
proof (intro conjI impI)
  have one: "sort_values tie [t] [x] = [x]" for tie t and x :: candle
    by (simp add: sort_values_def)
  show "\<exists>e. snd (identify_breakout lib [c] 1) = Inl e"
    by (simp add: identify_breakout_def Let_def to_datetime_def set_timestamp_def
        one classify_sorted_single)
  show "snd (identify_breakout lib [c] 1) = Inl IndexError"
    if "to_dt (read_date lib) (timestamp c) \<noteq> None"
    using that
    by (simp add: identify_breakout_def Let_def to_datetime_def set_timestamp_def
        one classify_sorted_single)
  show "2 \<le> length df \<or> int (length df) < lookback"
    if r: "snd (identify_breakout lib df lookback) = Inr v"
  proof (rule ccontr)
    assume "\<not> (2 \<le> length df \<or> int (length df) < lookback)"
    then have small: "length df < 2" and len: "lookback \<le> int (length df)" by simp_all
    from r len obtain ts where ts: "to_datetime (read_date lib) (map timestamp df) = Some ts"
      by (cases "to_datetime (read_date lib) (map timestamp df)")
         (simp_all add: identify_breakout_def)
    let ?s = "sort_values (tie_rank lib) ts (set_timestamp df ts)"
    have n: "length ?s = length df" using ts by (rule length_sorted_frame)
    from r have cs: "classify_sorted lib ?s lookback = Inr v"
      using identify_breakout_sorted [OF ts len] by simp
    then have lb: "1 \<le> lookback" by (simp add: classify_sorted_def split: if_splits)
    with len small have "length df = 1" by linarith
    with n have "length ?s = 1" by simp
    then have "?s \<noteq> []" by auto
    with cs lb \<open>length ?s = 1\<close> show False
      by (simp add: classify_sorted_read iloc_last_but_one length_rolling)
  qed
  show "\<exists>v. snd (identify_breakout lib df lookback) = Inr v"
    if h: "to_datetime (read_date lib) (map timestamp df) \<noteq> None \<and> 1 \<le> lookback \<and>
      (2 \<le> length df \<or> int (length df) < lookback)"
  proof (cases "int (length df) < lookback")
    case True
    then have "snd (identify_breakout lib df lookback) = Inr (False, ''Insufficient Data'', [])"
      by (simp add: identify_breakout_def)
    then show ?thesis by (rule exI)
  next
    case False
    with h have n: "2 \<le> length df" and lb: "1 \<le> lookback" by simp_all
    from h obtain ts where ts: "to_datetime (read_date lib) (map timestamp df) = Some ts"
      by auto
    from False have len: "lookback \<le> int (length df)" by simp
    have "2 \<le> length (sort_values (tie_rank lib) ts (set_timestamp df ts))"
      using n length_sorted_frame [OF ts] by simp
    from classify_sorted_total [OF this lb] show ?thesis
      using identify_breakout_sorted [OF ts len] by simp
  qed
qed

theorem single_candle_no_verdict_witness:
  "snd (identify_breakout exact_library [surge 1] 1) = Inl IndexError \<and>
   snd (identify_breakout exact_library [quiet 1, quiet 2] 2)
     = Inr (False, ''No Breakout'', []) \<and>
   to_datetime (read_date exact_library) (map timestamp [quiet 1, quiet 2]) \<noteq> None \<and>
   (1::int) \<le> 2 \<and> 2 \<le> length [quiet 1, quiet 2]"
proof -
  have p: "to_dt (read_date exact_library) (timestamp (surge 1)) \<noteq> None" by code_simp
  have r: "snd (identify_breakout exact_library [quiet 1, quiet 2] 2)
             = Inr (False, ''No Breakout'', [])"
    by code_simp
  have d: "to_datetime (read_date exact_library) (map timestamp [quiet 1, quiet 2]) \<noteq> None"
    by code_simp
  from single_candle_no_verdict
    [of exact_library "surge 1" "[quiet 1, quiet 2]" 2 "(False, ''No Breakout'', [])"] p r d
  show ?thesis by simp
qed

section \<open>The true range and the ATR\<close>

text \<open>
  C4, as the code has it. In the breakout branch (the hypotheses of the breakout
  theorem above) the true-range column holds, at every row after the first, the largest
  of \<open>high - low\<close>, \<open>|high - prev_close|\<close> and \<open>|low - prev_close|\<close>; at the first row it
  holds NaN, since \<^verbatim>\<open>shift(1)\<close> has no previous close there and \<^verbatim>\<open>np.maximum\<close> passes the
  NaN on. The ATR that decides the category and is reported in the details is the
  rolling mean of this column, window 14, at the last row; the observations of that
  window are the true ranges of the last 14 rows, the first row of the frame left out;
  and where the library's mean does not round, the ATR is their mean.
\<close>

theorem atr_of_breakout:
  assumes parsed: "to_datetime (read_date lib) (map timestamp df) = Some ts"
    and sorted: "s = sort_values (tie_rank lib) ts (set_timestamp df ts)"
    and len: "lookback \<le> int (length df)"
    and ph: "iloc (rolling (nat lookback) 1 (window_max (nat lookback))
                     (map (\<lambda>c. Some (high c)) s)) (- 2)
               = Inr (Some previous_high)"
    and brk: "previous_high < close (last s)"
    and atr: "atr = fl_mean lib 14 (tr_column lib s) (length s - 1)"
  shows "tr_column lib s ! 0 = None \<and>
     (\<forall>i. 0 < i \<and> i < length s \<longrightarrow>
        tr_column lib s ! i =
          Some (max (fl_sub lib (high (s ! i)) (low (s ! i)))
                    (max \<bar>fl_sub lib (high (s ! i)) (close (s ! (i - 1)))\<bar>
                         \<bar>fl_sub lib (low (s ! i)) (close (s ! (i - 1)))\<bar>))) \<and>
     observations (window 14 (length s - 1) (tr_column lib s))
       = map (true_range lib s) [max 1 (length s - 14)..<length s] \<and>
     (\<exists>breakout_type dets.
        snd (identify_breakout lib df lookback) = Inr (True, breakout_type, dets) \<and>
        map_of dets ''atr'' = Some (PyFloat (Some atr)) \<and>
        (breakout_type = ''Partial Breakout - Small Size''
           \<longleftrightarrow> fl_sub lib (close (last s)) previous_high \<le> atr)) \<and>
     (fl_mean lib 14 (tr_column lib s) (length s - 1)
        = window_mean 14 (tr_column lib s) (length s - 1) \<longrightarrow>
      atr = mean (map (true_range lib s) [max 1 (length s - 14)..<length s]))"
proof (intro conjI allI impI)
  from read_previous_high [OF ph] have n: "2 \<le> length s" and w: "0 < nat lookback"
    by simp_all
  then have ne: "s \<noteq> []" and lb: "1 \<le> lookback" by auto
  from ne show "tr_column lib s ! 0 = None" using tr_column_nth [of 0 s lib] by simp
  show "tr_column lib s ! i =
          Some (max (fl_sub lib (high (s ! i)) (low (s ! i)))
                    (max \<bar>fl_sub lib (high (s ! i)) (close (s ! (i - 1)))\<bar>
                         \<bar>fl_sub lib (low (s ! i)) (close (s ! (i - 1)))\<bar>))"
    if "0 < i \<and> i < length s" for i
    using that by (simp add: tr_column_nth)
  show obs: "observations (window 14 (length s - 1) (tr_column lib s))
       = map (true_range lib s) [max 1 (length s - 14)..<length s]"
    using ne by (rule atr_window)
  show "atr = mean (map (true_range lib s) [max 1 (length s - 14)..<length s])"
    if "fl_mean lib 14 (tr_column lib s) (length s - 1)
        = window_mean 14 (tr_column lib s) (length s - 1)"
    using that atr obs by (simp add: window_mean_def)
  have a: "iloc (rolling 14 1 (fl_mean lib 14) (tr_column lib s)) (- 1) = Inr (Some atr)"
    using atr_last [OF n, of lib] atr by simp
  note av = avg_volume_last [OF ne w, of lib]
  have "snd (identify_breakout lib df lookback) = classify_sorted lib s lookback"
    using identify_breakout_sorted [OF parsed len] sorted by simp
  also have "\<dots> = decide lib s (nat lookback) (close (last s)) (Some previous_high)"
    using ph by (simp add: classify_sorted_read [OF lb ne])
  also note decide_breakout [OF brk a av volume_last [OF ne]]
  finally show "\<exists>breakout_type dets.
        snd (identify_breakout lib df lookback) = Inr (True, breakout_type, dets) \<and>
        map_of dets ''atr'' = Some (PyFloat (Some atr)) \<and>
        (breakout_type = ''Partial Breakout - Small Size''
           \<longleftrightarrow> fl_sub lib (close (last s)) previous_high \<le> atr)"
    by (simp add: mk_details_def)
qed

theorem atr_of_breakout_witness:
  "to_datetime (read_date exact_library) (map timestamp calm_then_surge) = Some [1..16] \<and>
   calm_then_surge
     = sort_values (tie_rank exact_library) [1..16] (set_timestamp calm_then_surge [1..16]) \<and>
   16 \<le> int (length calm_then_surge) \<and>
   iloc (rolling (nat 16) 1 (window_max (nat 16))
           (map (\<lambda>c. Some (high c)) calm_then_surge)) (- 2)
     = Inr (Some 101) \<and>
   101 < close (last calm_then_surge) \<and>
   6 = fl_mean exact_library 14 (tr_column exact_library calm_then_surge)
         (length calm_then_surge - 1) \<and>
   0 < (15::nat) \<and> 15 < length calm_then_surge \<and>
   fl_mean exact_library 14 (tr_column exact_library calm_then_surge)
       (length calm_then_surge - 1)
     = window_mean 14 (tr_column exact_library calm_then_surge) (length calm_then_surge - 1) \<and>
   tr_column exact_library calm_then_surge ! 15 = Some 58 \<and>
   (6::real) = mean (map (true_range exact_library calm_then_surge)
                      [max 1 (length calm_then_surge - 14)..<length calm_then_surge]) \<and>
   (\<exists>breakout_type dets.
      snd (identify_breakout exact_library calm_then_surge 16)
        = Inr (True, breakout_type, dets) \<and>
      map_of dets ''atr'' = Some (PyFloat (Some 6)) \<and>
      breakout_type \<noteq> ''Partial Breakout - Small Size'')"
proof -
  let ?s = calm_then_surge
  let ?L = exact_library
  have h1: "to_datetime (read_date ?L) (map timestamp ?s) = Some [1..16]" by code_simp
  have h2: "?s = sort_values (tie_rank ?L) [1..16] (set_timestamp ?s [1..16])" by code_simp
  have h3: "16 \<le> int (length ?s)" by code_simp
  have h4: "iloc (rolling (nat 16) 1 (window_max (nat 16)) (map (\<lambda>c. Some (high c)) ?s)) (- 2)
              = Inr (Some 101)"
    by code_simp
  have h5: "101 < close (last ?s)" by code_simp
  have h6: "6 = fl_mean ?L 14 (tr_column ?L ?s) (length ?s - 1)" by code_simp
  have l: "0 < (15::nat)" "15 < length ?s" by code_simp+
  have e: "fl_mean ?L 14 (tr_column ?L ?s) (length ?s - 1)
             = window_mean 14 (tr_column ?L ?s) (length ?s - 1)"
    by (simp add: exact_library_def)
  have c: "\<not> fl_sub ?L (close (last ?s)) 101 \<le> 6" by code_simp
  have t: "Some (max (fl_sub ?L (high (?s ! 15)) (low (?s ! 15)))
                    (max \<bar>fl_sub ?L (high (?s ! 15)) (close (?s ! (15 - 1)))\<bar>
                         \<bar>fl_sub ?L (low (?s ! 15)) (close (?s ! (15 - 1)))\<bar>)) = Some 58"
    by code_simp
  note k = atr_of_breakout [OF h1 h2 h3 h4 h5 h6]
  have "0 < (15::nat) \<and> 15 < length ?s" using l by simp
  from k [THEN conjunct2, THEN conjunct1, THEN spec, THEN mp, OF this] t
  have k2: "tr_column ?L ?s ! 15 = Some 58" by simp
  note k3 = k [THEN conjunct2, THEN conjunct2, THEN conjunct2, THEN conjunct2, THEN mp, OF e]
  from k [THEN conjunct2, THEN conjunct2, THEN conjunct2, THEN conjunct1]
  obtain breakout_type dets where
    r: "snd (identify_breakout ?L ?s 16) = Inr (True, breakout_type, dets)"
       "map_of dets ''atr'' = Some (PyFloat (Some 6))"
       "breakout_type = ''Partial Breakout - Small Size''
           \<longleftrightarrow> fl_sub ?L (close (last ?s)) 101 \<le> 6"
    by (elim conjE exE)
  from r(3) c have "breakout_type \<noteq> ''Partial Breakout - Small Size''" by simp
  with r(1,2) have k4: "\<exists>breakout_type dets.
      snd (identify_breakout ?L ?s 16) = Inr (True, breakout_type, dets) \<and>
      map_of dets ''atr'' = Some (PyFloat (Some 6)) \<and>
      breakout_type \<noteq> ''Partial Breakout - Small Size''"
    by (intro exI [of _ breakout_type] exI [of _ dets] conjI)
  from h1 h2 h3 h4 h5 h6 l e k2 k3 k4 show ?thesis by (intro conjI)
qed

text \<open>
  The claim as written fails on a frame of two rows with \<open>lookback = 2\<close>: the first true
  range is NaN, not \<open>high - low = 2\<close>, and the ATR of the verdict is 58, the one defined
  true range, not the mean 30 of the two true ranges of the specification; so the
  category is \<^verbatim>\<open>Partial Breakout - Small Size\<close>, where a size of 49 against an ATR of 30
  would not be small. All numbers are integers, so no rounding is involved.
\<close>

theorem first_true_range_counterexample:
  "snd (identify_breakout exact_library [quiet 1, surge 2] 2) =
     Inr (True, ''Partial Breakout - Small Size'',
          [(''current_close'', PyFloat (Some 150)), (''previous_high'', PyFloat (Some 101)),
           (''breakout_size'', PyFloat (Some 49)), (''atr'', PyFloat (Some 58)),
           (''current_volume'', PyInt 4000), (''avg_volume'', PyFloat (Some 2500))]) \<and>
   tr_column exact_library [quiet 1, surge 2] = [None, Some 58] \<and>
   true_range exact_library [quiet 1, surge 2] 0 = 2 \<and>
   atr_spec exact_library [quiet 1, surge 2] = 30"
  by code_simp

section \<open>The order of the rows\<close>

lemma filter_key_distinct:
  "distinct (map f zs) \<Longrightarrow> k \<in> set zs \<Longrightarrow> filter (\<lambda>x. f k = f x) zs = [k]"
proof (induction zs)
  case Nil
  then show ?case by simp
next
  case (Cons z zs)
  show ?case
  proof (cases "k = z")
    case True
    with Cons.prems have "\<forall>x \<in> set zs. f k \<noteq> f x" by auto
    then have "filter (\<lambda>x. f k = f x) zs = []" by (simp add: filter_empty_conv)
    with True show ?thesis by simp
  next
    case False
    with Cons.prems have k: "k \<in> set zs" by simp
    then have "f k \<in> f ` set zs" by (rule imageI)
    moreover from Cons.prems have "f z \<notin> f ` set zs" by simp
    ultimately have "f k \<noteq> f z" by metis
    with k Cons show ?thesis by simp
  qed
qed

lemma sort_key_permutation:
  assumes "mset xs = mset ys" "distinct (map f xs)"
  shows "sort_key f xs = sort_key f ys"
proof -
  have "mset (map f ys) = mset (map f xs)" using assms(1) by simp
  then have dy: "distinct (map f ys)"
    using assms(2) by (metis mset_eq_imp_distinct_iff)
  have "sort_key f ys = sort_key f xs"
  proof (rule properties_for_sort_key)
    show "mset (sort_key f xs) = mset ys" using assms(1) by simp
    show "sorted (map f (sort_key f xs))" by simp
    fix k assume "k \<in> set (sort_key f xs)"
    then have kx: "k \<in> set xs" by simp
    then have ky: "k \<in> set ys" using assms(1) by (metis mset_eq_setD)
    have "mset (map f (sort_key f xs)) = mset (map f xs)" by simp
    then have "distinct (map f (sort_key f xs))"
      using assms(2) by (metis mset_eq_imp_distinct_iff)
    with kx have "filter (\<lambda>x. f k = f x) (sort_key f xs) = [k]"
      by (intro filter_key_distinct) simp_all
    moreover from dy ky have "filter (\<lambda>x. f k = f x) ys = [k]" by (rule filter_key_distinct)
    ultimately show "filter (\<lambda>x. f k = f x) (sort_key f xs) = filter (\<lambda>x. f k = f x) ys"
      by simp
  qed
  then show ?thesis by simp
qed

text \<open>With distinct keys there is one sorted order only.\<close>

lemma sorted_order_unique:
  assumes "mset xs = mset ys" "sorted (map f xs)" "sorted (map f ys)" "distinct (map f xs)"
  shows "xs = ys"
proof -
  have "xs = sort_key f xs" using assms(2) by (simp add: sort_key_id_if_sorted)
  also have "\<dots> = sort_key f ys" using assms(1,4) by (rule sort_key_permutation)
  also have "\<dots> = ys" using assms(3) by (simp add: sort_key_id_if_sorted)
  finally show ?thesis .
qed

lemma sorted_first_components:
  "sorted (map (\<lambda>i. (a i, b i)) xs) \<Longrightarrow> sorted (map a xs)"
  by (induction xs) (auto simp: less_eq_prod_def)

text \<open>
  Whatever the ranking of equal datetimes, the sorted frame holds the rows of the frame
  and its datetimes ascend.
\<close>

lemma mset_sort_values:
  assumes "length ts = length df"
  shows "mset (sort_values tie ts df) = mset df"
proof -
  let ?Z = "zip [0..<length df] (zip ts df)"
  have "mset (sort_values tie ts df) = mset (map (\<lambda>(i, t, c). c) ?Z)"
    by (simp add: sort_values_def)
  also have "map (\<lambda>(i, t, c). c) ?Z = map snd (map snd ?Z)"
    by (simp add: split_def comp_def)
  also have "\<dots> = df" using assms by simp
  finally show ?thesis .
qed

lemma sorted_sort_values:
  assumes "map k df = ts"
  shows "sorted (map k (sort_values tie ts df))"
proof -
  let ?Z = "zip [0..<length df] (zip ts df)"
  let ?K = "\<lambda>x. (fst (snd x), tie ts (fst x))"
  let ?S = "sort_key ?K ?Z"
  have sv: "sort_values tie ts df = map (\<lambda>x. snd (snd x)) ?S"
    by (simp add: sort_values_def split_def)
  have "sorted (map ?K ?S)" by (rule sorted_sort_key)
  then have s: "sorted (map (\<lambda>x. fst (snd x)) ?S)" by (rule sorted_first_components)
  have "zip ts df = map (\<lambda>c. (k c, c)) df"
    using assms by (auto simp: zip_map1 zip_same_conv_map)
  then have key: "k (snd (snd x)) = fst (snd x)" if "x \<in> set ?Z" for x
  proof -
    obtain i p where x: "x = (i, p)" by (cases x)
    with that have "p \<in> set (zip ts df)" by (auto dest: set_zip_rightD)
    with \<open>zip ts df = map (\<lambda>c. (k c, c)) df\<close> x show ?thesis by auto
  qed
  have "map k (sort_values tie ts df) = map (\<lambda>x. k (snd (snd x))) ?S"
    by (simp add: sv comp_def)
  also have "\<dots> = map (\<lambda>x. fst (snd x)) ?S"
    using key by (intro map_cong [OF refl]) simp
  finally show ?thesis using s by simp
qed

lemma set_timestamp_rows:
  assumes "to_datetime parse (map timestamp df) = Some ts"
  shows "set_timestamp df ts
           = map (\<lambda>c. c\<lparr>timestamp := Datetime (the (to_dt parse (timestamp c)))\<rparr>) df"
proof -
  have ts: "ts = map (\<lambda>c. the (to_dt parse (timestamp c))) df"
    using to_datetime_Some [OF assms] by (simp add: comp_def)
  show ?thesis unfolding ts set_timestamp_def
    by (induction df) simp_all
qed

lemma set_timestamp_keys:
  assumes "to_datetime parse (map timestamp df) = Some ts"
  shows "map (\<lambda>c. the (to_dt parse (timestamp c))) (set_timestamp df ts) = ts"
proof -
  let ?k = "\<lambda>c. the (to_dt parse (timestamp c))"
  have ts: "ts = map ?k df"
    using to_datetime_Some [OF assms] by (simp add: comp_def)
  have "map ?k (set_timestamp df ts)
          = map ?k (map (\<lambda>c. c\<lparr>timestamp := Datetime (?k c)\<rparr>) df)"
    by (simp only: set_timestamp_rows [OF assms])
  also have "\<dots> = map ?k df" by (simp add: comp_def)
  finally show ?thesis using ts by simp
qed

lemma mset_sorted_frame:
  assumes "to_datetime parse (map timestamp df) = Some ts"
  shows "mset (sort_values tie ts (set_timestamp df ts)) = mset (set_timestamp df ts)"
  using assms by (intro mset_sort_values) (simp add: to_datetime_length length_set_timestamp)

lemma sorted_frame_permutation:
  assumes perm: "mset df' = mset df"
    and ts: "to_datetime parse (map timestamp df) = Some ts"
    and ts': "to_datetime parse (map timestamp df') = Some ts'"
    and dist: "distinct ts"
  shows "sort_values tie ts' (set_timestamp df' ts') = sort_values tie ts (set_timestamp df ts)"
proof (rule sorted_order_unique [where f = "\<lambda>c. the (to_dt parse (timestamp c))"])
  let ?k = "\<lambda>c. the (to_dt parse (timestamp c))"
  let ?S = "sort_values tie ts (set_timestamp df ts)"
  let ?S' = "sort_values tie ts' (set_timestamp df' ts')"
  have m: "mset ?S = mset (set_timestamp df ts)" "mset ?S' = mset (set_timestamp df' ts')"
    by (rule mset_sorted_frame [OF ts], rule mset_sorted_frame [OF ts'])
  have "mset (set_timestamp df' ts') = mset (set_timestamp df ts)"
    using perm by (simp add: set_timestamp_rows [OF ts] set_timestamp_rows [OF ts'])
  with m show "mset ?S' = mset ?S" by simp
  show "sorted (map ?k ?S')" using set_timestamp_keys [OF ts'] by (rule sorted_sort_values)
  show "sorted (map ?k ?S)" using set_timestamp_keys [OF ts] by (rule sorted_sort_values)
  have "mset (map ?k ?S') = mset (map ?k (set_timestamp df' ts'))" using m(2) by simp
  also have "\<dots> = mset (map ?k (set_timestamp df ts))"
    using \<open>mset (set_timestamp df' ts') = mset (set_timestamp df ts)\<close> by simp
  also have "\<dots> = mset ts" by (simp add: set_timestamp_keys [OF ts])
  finally show "distinct (map ?k ?S')" using dist by (metis mset_eq_imp_distinct_iff)
qed

text \<open>
  C8. Let \<open>df'\<close> hold the same rows as \<open>df\<close> in any other order, and let the datetimes
  read from the timestamps of \<open>df\<close> be pairwise distinct. Then the two calls end alike:
  the same tuple \<^verbatim>\<open>(is_breakout, breakout_type, details)\<close>, or the same exception. The
  rows are sorted by their datetimes before anything is read from them, and with
  distinct datetimes the sorted frame is the same whichever sorting algorithm is used.
\<close>

theorem permutation_invariant:
  assumes perm: "mset df' = mset df"
    and dist: "\<And>ts. to_datetime (read_date lib) (map timestamp df) = Some ts \<Longrightarrow> distinct ts"
  shows "snd (identify_breakout lib df' lookback) = snd (identify_breakout lib df lookback)"
proof -
  from perm have len: "length df' = length df" by (rule mset_eq_length)
  from perm have "set df' = set df" by (rule mset_eq_setD)
  then have none: "to_datetime (read_date lib) (map timestamp df') = None
                     \<longleftrightarrow> to_datetime (read_date lib) (map timestamp df) = None"
    by (simp add: to_datetime_None_iff)
  show ?thesis
  proof (cases "int (length df) < lookback")
    case True
    with len show ?thesis by (simp add: identify_breakout_def)
  next
    case False
    then have l: "lookback \<le> int (length df)" "lookback \<le> int (length df')"
      using len by simp_all
    show ?thesis
    proof (cases "to_datetime (read_date lib) (map timestamp df)")
      case None
      then have "to_datetime (read_date lib) (map timestamp df') = None"
        using none by simp
      with None False len show ?thesis by (simp add: identify_breakout_def)
    next
      case (Some ts)
      then have "to_datetime (read_date lib) (map timestamp df') \<noteq> None"
        using none by simp
      then obtain ts' where ts': "to_datetime (read_date lib) (map timestamp df') = Some ts'"
        by auto
      from sorted_frame_permutation [OF perm Some ts' dist [OF Some]]
      show ?thesis
        by (simp add: identify_breakout_sorted [OF Some l(1)]
            identify_breakout_sorted [OF ts' l(2)])
    qed
  qed
qed

theorem permutation_invariant_witness:
  "mset [quiet 2, surge 3, quiet 1] = mset [quiet 1, quiet 2, surge 3] \<and>
   to_datetime (read_date exact_library) (map timestamp [quiet 1, quiet 2, surge 3])
     = Some [1, 2, 3] \<and>
   distinct [1, 2, 3 :: int] \<and>
   snd (identify_breakout exact_library [quiet 2, surge 3, quiet 1] 3)
     = snd (identify_breakout exact_library [quiet 1, quiet 2, surge 3] 3)"
proof -
  have p: "mset [quiet 2, surge 3, quiet 1] = mset [quiet 1, quiet 2, surge 3]" by simp
  have t: "to_datetime (read_date exact_library) (map timestamp [quiet 1, quiet 2, surge 3])
             = Some [1, 2, 3]"
    by code_simp
  have d: "distinct [1, 2, 3 :: int]" by simp
  have "distinct ts"
    if "to_datetime (read_date exact_library) (map timestamp [quiet 1, quiet 2, surge 3])
          = Some ts"
    for ts using that t d by simp
  from permutation_invariant [OF p this] p t d show ?thesis by (intro conjI)
qed

section \<open>The caller's frame\<close>

lemma datetime_rows_unchanged:
  assumes "\<forall>c \<in> set df. \<exists>t. timestamp c = Datetime t"
  shows "map (\<lambda>c. c\<lparr>timestamp := Datetime (the (to_dt parse (timestamp c)))\<rparr>) df = df"
  using assms by (induction df) auto

lemma sorted_frame_stamps:
  assumes ts: "to_datetime parse (map timestamp df) = Some ts" and s: "sorted ts"
  shows "map timestamp (sort_values tie ts (set_timestamp df ts))
           = map timestamp (set_timestamp df ts)"
proof -
  let ?k = "\<lambda>c. the (to_dt parse (timestamp c))"
  let ?df1 = "set_timestamp df ts"
  let ?S = "sort_values tie ts ?df1"
  have keys: "map ?k ?df1 = ts" using ts by (rule set_timestamp_keys)
  have "mset (map ?k ?S) = mset ts"
    using mset_sorted_frame [OF ts, of tie] keys by (metis mset_map)
  moreover have "sorted (map ?k ?S)" using keys by (rule sorted_sort_values)
  ultimately have "sort ts = map ?k ?S" by (rule properties_for_sort)
  with s have k: "map ?k ?S = ts" by (simp add: sorted_sort_id)
  have stamp: "timestamp c = Datetime (?k c)" if "c \<in> set ?df1" for c
    using that by (auto simp: set_timestamp_rows [OF ts])
  have "set ?S = set ?df1" using mset_sorted_frame [OF ts, of tie] by (rule mset_eq_setD)
  then have "map timestamp ?S = map (\<lambda>c. Datetime (?k c)) ?S"
    using stamp by (intro map_cong [OF refl]) simp
  also have "\<dots> = map Datetime (map ?k ?S)" by (simp add: comp_def)
  also have "\<dots> = map Datetime (map ?k ?df1)" using k keys by simp
  also have "\<dots> = map (\<lambda>c. Datetime (?k c)) ?df1" by (simp add: comp_def)
  also have "\<dots> = map timestamp ?df1"
    using stamp by (intro map_cong [OF refl]) simp
  finally show ?thesis .
qed

lemma sort_values_ascending:
  assumes ts: "to_datetime parse (map timestamp df) = Some ts" and s: "sorted_wrt (<) ts"
  shows "sort_values tie ts (set_timestamp df ts) = set_timestamp df ts"
proof (rule sorted_order_unique [where f = "\<lambda>c. the (to_dt parse (timestamp c))"])
  let ?k = "\<lambda>c. the (to_dt parse (timestamp c))"
  let ?df1 = "set_timestamp df ts"
  have keys: "map ?k ?df1 = ts" using ts by (rule set_timestamp_keys)
  from s have st: "sorted ts" and d: "distinct ts"
    by (simp_all add: strict_sorted_iff)
  show "mset (sort_values tie ts ?df1) = mset ?df1" using ts by (rule mset_sorted_frame)
  show "sorted (map ?k (sort_values tie ts ?df1))" using keys by (rule sorted_sort_values)
  show "sorted (map ?k ?df1)" using keys st by simp
  have "mset (map ?k (sort_values tie ts ?df1)) = mset ts"
    using mset_sorted_frame [OF ts, of tie] keys by (metis mset_map)
  then show "distinct (map ?k (sort_values tie ts ?df1))"
    using d by (metis mset_eq_imp_distinct_iff)
qed

text \<open>
  C9, as the code has it. The result depends on nothing but the frame, \<open>lookback\<close> and
  the libraries, so equal arguments give equal results. The caller's frame is not left
  alone, though: line 168 stores the datetimes read from the timestamps back into the
  caller's \<^verbatim>\<open>timestamp\<close> column. The frame is unchanged when it has fewer than \<open>lookback\<close>
  rows or a timestamp cannot be read; otherwise each timestamp is replaced by its
  datetime, the rows stay in their order and all other columns keep their values; so a
  frame whose timestamps are datetimes already is unchanged. Sorting a frame whose
  datetimes ascend leaves the timestamp column as it is and keeps the rows of the
  frame; it changes nothing at all when no two datetimes are equal.
\<close>

theorem caller_frame:
  "(int (length df) < lookback \<or> to_datetime (read_date lib) (map timestamp df) = None \<longrightarrow>
      fst (identify_breakout lib df lookback) = df) \<and>
   (lookback \<le> int (length df) \<and> to_datetime (read_date lib) (map timestamp df) \<noteq> None \<longrightarrow>
      fst (identify_breakout lib df lookback)
        = map (\<lambda>c. c\<lparr>timestamp := Datetime (the (to_dt (read_date lib) (timestamp c)))\<rparr>) df) \<and>
   map (\<lambda>c. (open_price c, high c, low c, close c, volume c))
       (fst (identify_breakout lib df lookback))
     = map (\<lambda>c. (open_price c, high c, low c, close c, volume c)) df \<and>
   ((\<forall>c \<in> set df. \<exists>t. timestamp c = Datetime t) \<longrightarrow>
      fst (identify_breakout lib df lookback) = df) \<and>
   (to_datetime (read_date lib) (map timestamp df) = Some ts \<and> sorted ts \<longrightarrow>
      map timestamp (sort_values (tie_rank lib) ts (set_timestamp df ts))
        = map timestamp (set_timestamp df ts) \<and>
      mset (sort_values (tie_rank lib) ts (set_timestamp df ts))
        = mset (set_timestamp df ts)) \<and>
   (to_datetime (read_date lib) (map timestamp df) = Some ts \<and> sorted_wrt (<) ts \<longrightarrow>
      sort_values (tie_rank lib) ts (set_timestamp df ts) = set_timestamp df ts)"
proof -
  let ?upd = "map (\<lambda>c. c\<lparr>timestamp := Datetime (the (to_dt (read_date lib) (timestamp c)))\<rparr>) df"
  have cases: "fst (identify_breakout lib df lookback) =
      (if int (length df) < lookback \<or> to_datetime (read_date lib) (map timestamp df) = None
       then df else ?upd)"
    by (auto simp: identify_breakout_def Let_def set_timestamp_rows split: option.splits)
  have a: "fst (identify_breakout lib df lookback) = df"
    if "int (length df) < lookback \<or> to_datetime (read_date lib) (map timestamp df) = None"
    using that cases by simp
  have b: "fst (identify_breakout lib df lookback) = ?upd"
    if "lookback \<le> int (length df) \<and> to_datetime (read_date lib) (map timestamp df) \<noteq> None"
    using that cases by auto
  have c: "map (\<lambda>c. (open_price c, high c, low c, close c, volume c))
       (fst (identify_breakout lib df lookback))
     = map (\<lambda>c. (open_price c, high c, low c, close c, volume c)) df"
    by (simp add: cases comp_def)
  have d: "fst (identify_breakout lib df lookback) = df"
    if "\<forall>c \<in> set df. \<exists>t. timestamp c = Datetime t"
    using datetime_rows_unchanged [OF that] cases by simp
  have e: "map timestamp (sort_values (tie_rank lib) ts (set_timestamp df ts))
        = map timestamp (set_timestamp df ts) \<and>
      mset (sort_values (tie_rank lib) ts (set_timestamp df ts))
        = mset (set_timestamp df ts)"
    if h: "to_datetime (read_date lib) (map timestamp df) = Some ts \<and> sorted ts"
  proof
    from h have p: "to_datetime (read_date lib) (map timestamp df) = Some ts" and o: "sorted ts"
      by simp_all
    from p o show "map timestamp (sort_values (tie_rank lib) ts (set_timestamp df ts))
        = map timestamp (set_timestamp df ts)"
      by (rule sorted_frame_stamps)
    from p show "mset (sort_values (tie_rank lib) ts (set_timestamp df ts))
        = mset (set_timestamp df ts)"
      by (rule mset_sorted_frame)
  qed
  have f: "sort_values (tie_rank lib) ts (set_timestamp df ts) = set_timestamp df ts"
    if h: "to_datetime (read_date lib) (map timestamp df) = Some ts \<and> sorted_wrt (<) ts"
  proof -
    from h have p: "to_datetime (read_date lib) (map timestamp df) = Some ts"
      and o: "sorted_wrt (<) ts"
      by simp_all
    from p o show ?thesis by (rule sort_values_ascending)
  qed
  from a b c d e f show ?thesis by blast
qed

theorem caller_frame_witness:
  "int (length [surge 1]) < 20 \<and>
   fst (identify_breakout exact_library [surge 1] 20) = [surge 1] \<and>
   3 \<le> int (length fed) \<and>
   to_datetime (read_date exact_library) (map timestamp fed) \<noteq> None \<and>
   fst (identify_breakout exact_library fed 3) = [quiet 19724, surge 19725, quiet 19723] \<and>
   map timestamp [quiet 1, quiet 2] = [Datetime 1, Datetime 2] \<and>
   fst (identify_breakout exact_library [quiet 1, quiet 2] 2) = [quiet 1, quiet 2] \<and>
   to_datetime (read_date exact_library) (map timestamp [quiet 1, quiet 2]) = Some [1, 2] \<and>
   sorted [1, 2 :: int] \<and> sorted_wrt (<) [1, 2 :: int] \<and>
   map timestamp (sort_values (tie_rank exact_library) [1, 2]
                    (set_timestamp [quiet 1, quiet 2] [1, 2]))
     = map timestamp (set_timestamp [quiet 1, quiet 2] [1, 2]) \<and>
   sort_values (tie_rank exact_library) [1, 2] (set_timestamp [quiet 1, quiet 2] [1, 2])
     = set_timestamp [quiet 1, quiet 2] [1, 2]"
proof -
  let ?L = exact_library
  have s: "int (length [surge 1]) < 20" by simp
  have f: "3 \<le> int (length fed)" "to_datetime (read_date ?L) (map timestamp fed) \<noteq> None"
    by code_simp+
  have u: "map (\<lambda>c. c\<lparr>timestamp := Datetime (the (to_dt (read_date ?L) (timestamp c)))\<rparr>) fed
             = [quiet 19724, surge 19725, quiet 19723]" by code_simp
  have q: "\<forall>c \<in> set [quiet 1, quiet 2]. \<exists>t. timestamp c = Datetime t"
    by (simp add: quiet_def)
  have t: "to_datetime (read_date ?L) (map timestamp [quiet 1, quiet 2]) = Some [1, 2]"
    by code_simp
  have o: "sorted [1, 2 :: int]" "sorted_wrt (<) [1, 2 :: int]" by simp_all
  have a: "fst (identify_breakout ?L [surge 1] 20) = [surge 1]"
    using caller_frame [of "[surge 1]" 20 ?L, THEN conjunct1] s by simp
  have "fst (identify_breakout ?L fed 3)
          = map (\<lambda>c. c\<lparr>timestamp := Datetime (the (to_dt (read_date ?L) (timestamp c)))\<rparr>) fed"
    using caller_frame [of fed 3 ?L, THEN conjunct2, THEN conjunct1] f by simp
  with u have b: "fst (identify_breakout ?L fed 3) = [quiet 19724, surge 19725, quiet 19723]"
    by simp
  note c = caller_frame [of "[quiet 1, quiet 2]" 2 ?L "[1, 2]"]
  have d: "fst (identify_breakout ?L [quiet 1, quiet 2] 2) = [quiet 1, quiet 2]"
    using c [THEN conjunct2, THEN conjunct2, THEN conjunct2, THEN conjunct1] q by simp
  have e: "map timestamp (sort_values (tie_rank ?L) [1, 2]
                            (set_timestamp [quiet 1, quiet 2] [1, 2]))
             = map timestamp (set_timestamp [quiet 1, quiet 2] [1, 2])"
    using c [THEN conjunct2, THEN conjunct2, THEN conjunct2, THEN conjunct2, THEN conjunct1]
      t o(1) by simp
  have g: "sort_values (tie_rank ?L) [1, 2] (set_timestamp [quiet 1, quiet 2] [1, 2])
             = set_timestamp [quiet 1, quiet 2] [1, 2]"
    using c [THEN conjunct2, THEN conjunct2, THEN conjunct2, THEN conjunct2, THEN conjunct2]
      t o(2) by simp
  have m: "map timestamp [quiet 1, quiet 2] = [Datetime 1, Datetime 2]"
    by (simp add: quiet_def)
  from s a f b m d t o e g show ?thesis by (intro conjI)
qed

text \<open>
  Rows with equal datetimes are the one case where the sort of an ascending frame is
  left to the library: numpy's quicksort, the default of \<^verbatim>\<open>sort_values\<close>, promises no
  order among them. Under a ranking that puts the later of two such rows first, the
  frame \<open>quiet 1\<close>, \<open>surge 1\<close> is turned around, and its verdict is \<^verbatim>\<open>No Breakout\<close> where
  the rows as they stand give a breakout. So the no-op is stated for frames without
  equal datetimes, and for the others what holds under every ranking.
\<close>

lemma equal_timestamps_order:
  "sorted [1, 1 :: int] \<and>
   sort_values later_first [1, 1] [quiet 1, surge 1] = [surge 1, quiet 1] \<and>
   sort_values (tie_rank exact_library) [1, 1] [quiet 1, surge 1] = [quiet 1, surge 1] \<and>
   snd (identify_breakout (exact_library\<lparr>tie_rank := later_first\<rparr>) [quiet 1, surge 1] 2)
     = Inr (False, ''No Breakout'', []) \<and>
   snd (identify_breakout exact_library [quiet 1, surge 1] 2)
     = Inr (True, ''Partial Breakout - Small Size'',
            [(''current_close'', PyFloat (Some 150)), (''previous_high'', PyFloat (Some 101)),
             (''breakout_size'', PyFloat (Some 49)), (''atr'', PyFloat (Some 58)),
             (''current_volume'', PyInt 4000), (''avg_volume'', PyFloat (Some 2500))])"
  by code_simp

text \<open>
  The claim as written fails on the three rows \<open>fed\<close> with \<open>lookback = 3\<close>: the call
  returns a verdict, and after it the caller's timestamps are datetimes, no longer the
  ISO strings they were.
\<close>

theorem caller_frame_counterexample:
  "3 \<le> int (length fed) \<and>
   map timestamp fed = [Str ''2024-01-02'', Str ''2024-01-03'', Str ''2024-01-01''] \<and>
   snd (identify_breakout exact_library fed 3) =
     Inr (True, ''Full Breakout'',
          [(''current_close'', PyFloat (Some 150)), (''previous_high'', PyFloat (Some 101)),
           (''breakout_size'', PyFloat (Some 49)), (''atr'', PyFloat (Some 30)),
           (''current_volume'', PyInt 4000), (''avg_volume'', PyFloat (Some 2000))]) \<and>
   fst (identify_breakout exact_library fed 3) = [quiet 19724, surge 19725, quiet 19723] \<and>
   map timestamp (fst (identify_breakout exact_library fed 3))
     = [Datetime 19724, Datetime 19725, Datetime 19723] \<and>
   fst (identify_breakout exact_library fed 3) \<noteq> fed"
  by code_simp

section \<open>Facts about the scan\<close>

lemma attempt_raises:
  "fetch (conn st) symbol_token = (Raises, c) \<Longrightarrow>
   attempt fetch lib symbol symbol_token st = (st\<lparr>conn := c\<rparr>, Some FetchError)"
  by (simp add: attempt_def)

lemma attempt_no_data:
  "fetch (conn st) symbol_token = (Returns None, c) \<or>
   fetch (conn st) symbol_token = (Returns (Some []), c) \<Longrightarrow>
   attempt fetch lib symbol symbol_token st = (st\<lparr>conn := c\<rparr>, None)"
  by (auto simp: attempt_def)

lemma attempt_verdict:
  assumes "fetch (conn st) symbol_token = (Returns (Some df), c)" "df \<noteq> []"
    and "snd (identify_breakout lib df 20) = Inr (is_breakout, breakout_type, dets)"
  shows "attempt fetch lib symbol symbol_token st =
     (st\<lparr>conn := c,
         breakout_stocks := breakout_stocks st @
           (if is_breakout
            then [(''symbol'', PyStr symbol) # (''breakout_type'', PyStr breakout_type) # dets]
            else [])\<rparr>, None)"
  using assms by (simp add: attempt_def)

lemma retry_raises:
  "fetch (conn st) symbol_token = (Raises, c) \<Longrightarrow>
   retry (Suc n) fetch lib symbol symbol_token st =
     retry n fetch lib symbol symbol_token
       (st\<lparr>conn := c, delay := 2 * delay st, slept := slept st @ [2 * delay st]\<rparr>)"
  by (simp add: attempt_raises)

lemma scan_symbol_token:
  "lookup symbol = Some symbol_token \<Longrightarrow> symbol_token \<noteq> [] \<Longrightarrow>
   scan_symbol lookup fetch lib symbol st =
     (retry 3 fetch lib symbol symbol_token st)
       \<lparr>slept := slept (retry 3 fetch lib symbol symbol_token st)
                   @ [delay (retry 3 fetch lib symbol symbol_token st)]\<rparr>"
  by (simp add: scan_symbol_def Let_def)

lemma scan_symbol_fail_fail_ok:
  assumes tok: "lookup symbol = Some symbol_token" "symbol_token \<noteq> []"
    and f1: "fetch (conn st) symbol_token = (Raises, c1)"
    and f2: "fetch c1 symbol_token = (Raises, c2)"
    and f3: "fetch c2 symbol_token = (Returns (Some df), c3)"
    and df: "df \<noteq> []"
    and v: "snd (identify_breakout lib df 20) = Inr (is_breakout, breakout_type, dets)"
  shows "scan_symbol lookup fetch lib symbol st =
     st\<lparr>conn := c3, delay := 4 * delay st,
        slept := slept st @ [2 * delay st, 4 * delay st, 4 * delay st],
        breakout_stocks := breakout_stocks st @
          (if is_breakout
           then [(''symbol'', PyStr symbol) # (''breakout_type'', PyStr breakout_type) # dets]
           else [])\<rparr>"
proof -
  let ?st1 = "st\<lparr>conn := c1, delay := 2 * delay st, slept := slept st @ [2 * delay st]\<rparr>"
  let ?st2 = "?st1\<lparr>conn := c2, delay := 2 * delay ?st1, slept := slept ?st1 @ [2 * delay ?st1]\<rparr>"
  have "retry 3 fetch lib symbol symbol_token st = retry 2 fetch lib symbol symbol_token ?st1"
    using retry_raises [of fetch st symbol_token c1 2 lib symbol] f1
    by (simp add: numeral_3_eq_3 numeral_2_eq_2)
  also have "\<dots> = retry 1 fetch lib symbol symbol_token ?st2"
    using retry_raises [of fetch ?st1 symbol_token c2 1 lib symbol] f2
    by (simp add: numeral_2_eq_2)
  also have "\<dots> = fst (attempt fetch lib symbol symbol_token ?st2)"
    using attempt_verdict [of fetch ?st2 symbol_token df c3 lib is_breakout breakout_type dets symbol]
      f3 df v by simp
  also have "\<dots> = ?st2\<lparr>conn := c3,
         breakout_stocks := breakout_stocks st @
           (if is_breakout
            then [(''symbol'', PyStr symbol) # (''breakout_type'', PyStr breakout_type) # dets]
            else [])\<rparr>"
    using attempt_verdict [of fetch ?st2 symbol_token df c3 lib is_breakout breakout_type dets symbol]
      f3 df v by simp
  finally show ?thesis
    using tok by (simp add: scan_symbol_token [of lookup symbol symbol_token])
qed

lemma scan_symbol_exhausted:
  assumes tok: "lookup symbol = Some symbol_token" "symbol_token \<noteq> []"
    and f1: "fetch (conn st) symbol_token = (Raises, c1)"
    and f2: "fetch c1 symbol_token = (Raises, c2)"
    and f3: "fetch c2 symbol_token = (Raises, c3)"
  shows "scan_symbol lookup fetch lib symbol st =
     st\<lparr>conn := c3, delay := 8 * delay st,
        slept := slept st @ [2 * delay st, 4 * delay st, 8 * delay st, 8 * delay st]\<rparr>"
proof -
  let ?st1 = "st\<lparr>conn := c1, delay := 2 * delay st, slept := slept st @ [2 * delay st]\<rparr>"
  let ?st2 = "?st1\<lparr>conn := c2, delay := 2 * delay ?st1, slept := slept ?st1 @ [2 * delay ?st1]\<rparr>"
  let ?st3 = "?st2\<lparr>conn := c3, delay := 2 * delay ?st2, slept := slept ?st2 @ [2 * delay ?st2]\<rparr>"
  have "retry 3 fetch lib symbol symbol_token st = retry 2 fetch lib symbol symbol_token ?st1"
    using retry_raises [of fetch st symbol_token c1 2 lib symbol] f1
    by (simp add: numeral_3_eq_3 numeral_2_eq_2)
  also have "\<dots> = retry 1 fetch lib symbol symbol_token ?st2"
    using retry_raises [of fetch ?st1 symbol_token c2 1 lib symbol] f2
    by (simp add: numeral_2_eq_2)
  also have "\<dots> = retry 0 fetch lib symbol symbol_token ?st3"
    using retry_raises [of fetch ?st2 symbol_token c3 0 lib symbol] f3 by simp
  finally show ?thesis
    using tok by (simp add: scan_symbol_token [of lookup symbol symbol_token])
qed

lemma scan_symbol_no_data:
  assumes tok: "lookup symbol = Some symbol_token" "symbol_token \<noteq> []"
    and f: "fetch (conn st) symbol_token = (Returns None, c1) \<or>
            fetch (conn st) symbol_token = (Returns (Some []), c1)"
  shows "scan_symbol lookup fetch lib symbol st
           = st\<lparr>conn := c1, slept := slept st @ [delay st]\<rparr>"
  using attempt_no_data [of fetch st symbol_token c1 lib symbol] f
    tok
  by (simp add: scan_symbol_token [of lookup symbol symbol_token] numeral_3_eq_3)


lemma attempt_keeps_delay:
  "delay (fst (attempt fetch lib symbol symbol_token st)) = delay st \<and>
   slept (fst (attempt fetch lib symbol symbol_token st)) = slept st"
  by (auto simp: attempt_def split: prod.splits response.splits option.splits sum.splits)

lemma retry_delay:
  "\<exists>k\<le>n. delay (retry n fetch lib symbol symbol_token st) = 2 ^ k * delay st"
proof (induction n arbitrary: st)
  case 0
  show ?case by simp
next
  case (Suc n)
  obtain st' r where a: "attempt fetch lib symbol symbol_token st = (st', r)"
    by (cases "attempt fetch lib symbol symbol_token st")
  with attempt_keeps_delay [of fetch lib symbol symbol_token st]
  have d: "delay st' = delay st" by simp
  show ?case
  proof (cases r)
    case None
    with a d have "delay (retry (Suc n) fetch lib symbol symbol_token st) = 2 ^ 0 * delay st"
      by simp
    then show ?thesis by blast
  next
    case (Some e)
    let ?st = "st'\<lparr>delay := 2 * delay st', slept := slept st' @ [2 * delay st']\<rparr>"
    from Suc.IH [of ?st] obtain k where
      k: "k \<le> n" "delay (retry n fetch lib symbol symbol_token ?st) = 2 ^ k * delay ?st"
      by blast
    with a Some d
    have "delay (retry (Suc n) fetch lib symbol symbol_token st) = 2 ^ Suc k * delay st"
      by simp
    with k(1) show ?thesis by (metis Suc_le_mono)
  qed
qed

lemma retry_slept:
  "length (slept st) \<le> length (slept (retry n fetch lib symbol symbol_token st))"
proof (induction n arbitrary: st)
  case 0
  show ?case by simp
next
  case (Suc n)
  obtain st' r where a: "attempt fetch lib symbol symbol_token st = (st', r)"
    by (cases "attempt fetch lib symbol symbol_token st")
  with attempt_keeps_delay [of fetch lib symbol symbol_token st]
  have d: "slept st' = slept st" by simp
  show ?case
  proof (cases r)
    case None
    with a d show ?thesis by simp
  next
    case (Some e)
    let ?st = "st'\<lparr>delay := 2 * delay st', slept := slept st' @ [2 * delay st']\<rparr>"
    from Suc.IH [of ?st] d
    have "length (slept st) \<le> length (slept (retry n fetch lib symbol symbol_token ?st))"
      by simp
    with a Some show ?thesis by simp
  qed
qed

lemma scan_symbol_delay:
  "\<exists>k\<le>3. delay (scan_symbol lookup fetch lib symbol st) = 2 ^ k * delay st"
proof (cases "\<exists>t. lookup symbol = Some t \<and> t \<noteq> []")
  case True
  then obtain t where t: "lookup symbol = Some t" "t \<noteq> []" by blast
  from retry_delay [of 3 fetch lib symbol t st] t show ?thesis
    by (simp add: scan_symbol_def Let_def)
next
  case False
  then have "delay (scan_symbol lookup fetch lib symbol st) = 2 ^ 0 * delay st"
    by (auto simp: scan_symbol_def Let_def split: option.splits)
  then show ?thesis by blast
qed

lemma scan_symbol_slept:
  "Suc (length (slept st)) \<le> length (slept (scan_symbol lookup fetch lib symbol st))"
  using retry_slept [of st 3 fetch lib symbol]
  by (auto simp: scan_symbol_def Let_def split: option.splits)

lemma fold_scan_slept:
  "length symbols + length (slept st)
     \<le> length (slept (fold (scan_symbol lookup fetch lib) symbols st))"
proof (induction symbols arbitrary: st)
  case Nil
  show ?case by simp
next
  case (Cons symbol symbols)
  from Cons.IH [of "scan_symbol lookup fetch lib symbol st"]
    scan_symbol_slept [of st lookup fetch lib symbol]
  show ?case by simp
qed

lemma breakout_types:
  assumes "snd (identify_breakout lib df lookback) = Inr (True, breakout_type, dets)"
  shows "breakout_type \<in> {''Full Breakout'', ''Partial Breakout - Low Volume'',
                           ''Partial Breakout - Small Size''} \<and>
         map fst dets = [''current_close'', ''previous_high'', ''breakout_size'', ''atr'',
                         ''current_volume'', ''avg_volume'']"
proof -
  have d: "breakout_type \<in> {''Full Breakout'', ''Partial Breakout - Low Volume'',
                           ''Partial Breakout - Small Size''} \<and>
         map fst dets = [''current_close'', ''previous_high'', ''breakout_size'', ''atr'',
                         ''current_volume'', ''avg_volume'']"
    if "decide lib s w c p = Inr (True, breakout_type, dets)" for s w c p
    using that
    by (auto simp: decide_def Let_def mk_details_def split: if_splits sum.splits)
  have c: "\<exists>w c p. decide lib s w c p = Inr (True, breakout_type, dets)"
    if "classify_sorted lib s lookback = Inr (True, breakout_type, dets)" for s
    using that by (auto simp: classify_sorted_def Let_def split: if_splits sum.splits)
  from assms have "\<exists>s. classify_sorted lib s lookback = Inr (True, breakout_type, dets)"
    by (auto simp: identify_breakout_def Let_def split: if_splits option.splits)
  with c d show ?thesis by blast
qed

lemma attempt_rows:
  assumes "row \<in> set (breakout_stocks (fst (attempt fetch lib symbol symbol_token st)))"
  shows "row \<in> set (breakout_stocks st) \<or>
     (\<exists>df breakout_type dets.
        snd (identify_breakout lib df 20) = Inr (True, breakout_type, dets) \<and>
        row = (''symbol'', PyStr symbol) # (''breakout_type'', PyStr breakout_type) # dets)"
  using assms
  by (auto simp: attempt_def split: prod.splits response.splits option.splits sum.splits if_splits)

lemma retry_rows:
  assumes "row \<in> set (breakout_stocks (retry n fetch lib symbol symbol_token st))"
  shows "row \<in> set (breakout_stocks st) \<or>
     (\<exists>df breakout_type dets.
        snd (identify_breakout lib df 20) = Inr (True, breakout_type, dets) \<and>
        row = (''symbol'', PyStr symbol) # (''breakout_type'', PyStr breakout_type) # dets)"
  using assms
proof (induction n arbitrary: st)
  case 0
  then show ?case by simp
next
  case (Suc n)
  obtain st' r where a: "attempt fetch lib symbol symbol_token st = (st', r)"
    by (cases "attempt fetch lib symbol symbol_token st")
  note step = attempt_rows [of row fetch lib symbol symbol_token st]
  show ?case
  proof (cases r)
    case None
    with a Suc.prems have "row \<in> set (breakout_stocks st')" by simp
    with a step show ?thesis by simp
  next
    case (Some e)
    let ?st = "st'\<lparr>delay := 2 * delay st', slept := slept st' @ [2 * delay st']\<rparr>"
    from a Some Suc.prems
    have "row \<in> set (breakout_stocks (retry n fetch lib symbol symbol_token ?st))" by simp
    from Suc.IH [OF this] a step show ?thesis by auto
  qed
qed

lemma scan_symbol_rows:
  assumes "row \<in> set (breakout_stocks (scan_symbol lookup fetch lib symbol st))"
  shows "row \<in> set (breakout_stocks st) \<or>
     (\<exists>df breakout_type dets.
        snd (identify_breakout lib df 20) = Inr (True, breakout_type, dets) \<and>
        row = (''symbol'', PyStr symbol) # (''breakout_type'', PyStr breakout_type) # dets)"
proof (cases "\<exists>t. lookup symbol = Some t \<and> t \<noteq> []")
  case True
  then obtain t where t: "lookup symbol = Some t" "t \<noteq> []" by blast
  with assms have "row \<in> set (breakout_stocks (retry 3 fetch lib symbol t st))"
    by (simp add: scan_symbol_def Let_def)
  then show ?thesis by (rule retry_rows)
next
  case False
  with assms have "row \<in> set (breakout_stocks st)"
    by (auto simp: scan_symbol_def Let_def split: option.splits)
  then show ?thesis ..
qed

lemma fold_scan_rows:
  assumes "row \<in> set (breakout_stocks (fold (scan_symbol lookup fetch lib) symbols st))"
  shows "row \<in> set (breakout_stocks st) \<or>
     (\<exists>symbol \<in> set symbols. \<exists>df breakout_type dets.
        snd (identify_breakout lib df 20) = Inr (True, breakout_type, dets) \<and>
        row = (''symbol'', PyStr symbol) # (''breakout_type'', PyStr breakout_type) # dets)"
  using assms
proof (induction symbols arbitrary: st)
  case Nil
  then show ?case by simp
next
  case (Cons symbol symbols)
  from Cons.prems
  have "row \<in> set (breakout_stocks (fold (scan_symbol lookup fetch lib) symbols
                       (scan_symbol lookup fetch lib symbol st)))" by simp
  from Cons.IH [OF this] scan_symbol_rows [of row lookup fetch lib symbol st]
  show ?case by auto
qed

lemma scan_run_snoc:
  "scan_run lookup fetch lib c (symbols @ [symbol])
     = scan_symbol lookup fetch lib symbol (scan_run lookup fetch lib c symbols)"
  by (simp add: scan_run_def)

section \<open>Backoff\<close>

text \<open>
  C5, as the code has it. A scan starts with \<^verbatim>\<open>delay = 1\<close>. The state a symbol leaves
  behind, \<^verbatim>\<open>delay\<close> included, is the state the next symbol starts from, and a symbol
  multiplies \<^verbatim>\<open>delay\<close> by 1, 2, 4 or 8 and never lowers it: there is no reset. Every
  exception in an attempt doubles \<^verbatim>\<open>delay\<close> first and then sleeps for the doubled value.
  So a symbol whose request raises twice and then returns a non-empty frame that the
  classifier accepts sleeps twice before the success, for \<open>2 * d\<close> and \<open>4 * d\<close> where \<open>d\<close>
  is the delay it started with (2 and 4 for the first symbol of a scan), then once more
  for \<open>4 * d\<close> before the next symbol; and the row appended, if any, is the verdict on the
  frame of the third response.
\<close>

theorem backoff_delay:
  assumes tok: "lookup symbol = Some symbol_token" "symbol_token \<noteq> []"
  shows "delay (scan_run lookup fetch lib c []) = 1 \<and>
     scan_run lookup fetch lib c (symbols @ [symbol])
       = scan_symbol lookup fetch lib symbol (scan_run lookup fetch lib c symbols) \<and>
     (\<exists>k\<le>3. delay (scan_symbol lookup fetch lib symbol st) = 2 ^ k * delay st) \<and>
     (fetch (conn st) symbol_token = (Raises, c1) \<longrightarrow>
        retry (Suc n) fetch lib symbol symbol_token st =
          retry n fetch lib symbol symbol_token
            (st\<lparr>conn := c1, delay := 2 * delay st, slept := slept st @ [2 * delay st]\<rparr>)) \<and>
     (fetch (conn st) symbol_token = (Raises, c1) \<and> fetch c1 symbol_token = (Raises, c2) \<and>
      fetch c2 symbol_token = (Returns (Some df), c3) \<and> df \<noteq> [] \<and>
      snd (identify_breakout lib df 20) = Inr (is_breakout, breakout_type, dets) \<longrightarrow>
        scan_symbol lookup fetch lib symbol st =
          st\<lparr>conn := c3, delay := 4 * delay st,
             slept := slept st @ [2 * delay st, 4 * delay st, 4 * delay st],
             breakout_stocks := breakout_stocks st @
               (if is_breakout
                then [(''symbol'', PyStr symbol) # (''breakout_type'', PyStr breakout_type) # dets]
                else [])\<rparr>)"
proof (intro conjI impI)
  show "delay (scan_run lookup fetch lib c []) = 1" by (simp add: scan_run_def)
  show "scan_run lookup fetch lib c (symbols @ [symbol])
       = scan_symbol lookup fetch lib symbol (scan_run lookup fetch lib c symbols)"
    by (rule scan_run_snoc)
  show "\<exists>k\<le>3. delay (scan_symbol lookup fetch lib symbol st) = 2 ^ k * delay st"
    by (rule scan_symbol_delay)
  show "retry (Suc n) fetch lib symbol symbol_token st =
          retry n fetch lib symbol symbol_token
            (st\<lparr>conn := c1, delay := 2 * delay st, slept := slept st @ [2 * delay st]\<rparr>)"
    if "fetch (conn st) symbol_token = (Raises, c1)"
    using that by (rule retry_raises)
  show "scan_symbol lookup fetch lib symbol st =
          st\<lparr>conn := c3, delay := 4 * delay st,
             slept := slept st @ [2 * delay st, 4 * delay st, 4 * delay st],
             breakout_stocks := breakout_stocks st @
               (if is_breakout
                then [(''symbol'', PyStr symbol) # (''breakout_type'', PyStr breakout_type) # dets]
                else [])\<rparr>"
    if "fetch (conn st) symbol_token = (Raises, c1) \<and> fetch c1 symbol_token = (Raises, c2) \<and>
      fetch c2 symbol_token = (Returns (Some df), c3) \<and> df \<noteq> [] \<and>
      snd (identify_breakout lib df 20) = Inr (is_breakout, breakout_type, dets)"
  proof -
    from that have f: "fetch (conn st) symbol_token = (Raises, c1)"
      "fetch c1 symbol_token = (Raises, c2)" "fetch c2 symbol_token = (Returns (Some df), c3)"
      "df \<noteq> []" "snd (identify_breakout lib df 20) = Inr (is_breakout, breakout_type, dets)"
      by simp_all
    show ?thesis
      by (rule scan_symbol_fail_fail_ok
          [of lookup symbol symbol_token fetch st c1 c2 df c3 lib is_breakout breakout_type dets,
           OF tok f])
  qed
qed

theorem backoff_delay_witness:
  "same_token ''ACME'' = Some ''ACME'' \<and> ''ACME'' \<noteq> [] \<and>
   scripted [Raises, Raises, Returns (Some month)] 0 ''ACME'' = (Raises, 1) \<and>
   scripted [Raises, Raises, Returns (Some month)] 1 ''ACME'' = (Raises, 2) \<and>
   scripted [Raises, Raises, Returns (Some month)] 2 ''ACME'' = (Returns (Some month), 3) \<and>
   month \<noteq> [] \<and>
   snd (identify_breakout exact_library month 20) =
     Inr (True, ''Full Breakout'',
          [(''current_close'', PyFloat (Some 150)), (''previous_high'', PyFloat (Some 101)),
           (''breakout_size'', PyFloat (Some 49)), (''atr'', PyFloat (Some 6)),
           (''current_volume'', PyInt 4000), (''avg_volume'', PyFloat (Some 1150))]) \<and>
   scan_symbol same_token (scripted [Raises, Raises, Returns (Some month)]) exact_library ''ACME''
       \<lparr>conn = 0, delay = 1, slept = [], breakout_stocks = []\<rparr> =
     \<lparr>conn = 3, delay = 4, slept = [2, 4, 4],
      breakout_stocks =
        [[(''symbol'', PyStr ''ACME''), (''breakout_type'', PyStr ''Full Breakout''),
          (''current_close'', PyFloat (Some 150)), (''previous_high'', PyFloat (Some 101)),
          (''breakout_size'', PyFloat (Some 49)), (''atr'', PyFloat (Some 6)),
          (''current_volume'', PyInt 4000), (''avg_volume'', PyFloat (Some 1150))]]\<rparr>"
proof -
  let ?rs = "[Raises, Raises, Returns (Some month)]"
  let ?st = "\<lparr>conn = 0::nat, delay = 1, slept = [], breakout_stocks = []\<rparr>"
  let ?dets = "[(''current_close'', PyFloat (Some 150)), (''previous_high'', PyFloat (Some 101)),
           (''breakout_size'', PyFloat (Some 49)), (''atr'', PyFloat (Some 6)),
           (''current_volume'', PyInt 4000), (''avg_volume'', PyFloat (Some 1150))]"
  have t: "same_token ''ACME'' = Some ''ACME''" "''ACME'' \<noteq> []"
    by (simp_all add: same_token_def)
  have f: "scripted ?rs (conn ?st) ''ACME'' = (Raises, 1)"
    "scripted ?rs 1 ''ACME'' = (Raises, 2)"
    "scripted ?rs 2 ''ACME'' = (Returns (Some month), 3)"
    by (simp_all add: scripted_def)
  have m: "month \<noteq> []" by (simp add: month_def)
  have v: "snd (identify_breakout exact_library month 20) = Inr (True, ''Full Breakout'', ?dets)"
    by code_simp
  from backoff_delay [where lookup = same_token and symbol = "''ACME''"
      and symbol_token = "''ACME''" and fetch = "scripted ?rs" and lib = exact_library
      and st = ?st and ?c1.0 = 1 and ?c2.0 = 2 and ?c3.0 = 3 and df = month
      and is_breakout = True and breakout_type = "''Full Breakout''" and dets = ?dets
      and c = 0 and symbols = "[]" and n = 0, OF t] f m v
  have "scan_symbol same_token (scripted ?rs) exact_library ''ACME'' ?st =
          ?st\<lparr>conn := 3, delay := 4 * delay ?st,
             slept := slept ?st @ [2 * delay ?st, 4 * delay ?st, 4 * delay ?st],
             breakout_stocks := breakout_stocks ?st @
               [(''symbol'', PyStr ''ACME'') # (''breakout_type'', PyStr ''Full Breakout'') # ?dets]\<rparr>"
    by simp
  then have "scan_symbol same_token (scripted ?rs) exact_library ''ACME'' ?st =
     \<lparr>conn = 3, delay = 4, slept = [2, 4, 4],
      breakout_stocks =
        [(''symbol'', PyStr ''ACME'') # (''breakout_type'', PyStr ''Full Breakout'') # ?dets]\<rparr>"
    by simp
  with t f m v show ?thesis by simp
qed

text \<open>
  The claim as written fails on a scan of one symbol whose request raises twice and then
  returns the 25 rows of \<open>month\<close>: the sleeps are 2, 4 and 4, not 1 and 2 before the
  success.
\<close>

theorem backoff_delay_counterexample:
  "slept (scan_run same_token (scripted [Raises, Raises, Returns (Some month)]) exact_library 0
            [''ACME'']) = [2, 4, 4] \<and>
   take 2 (slept (scan_run same_token (scripted [Raises, Raises, Returns (Some month)])
                    exact_library 0 [''ACME''])) \<noteq> [1, 2] \<and>
   breakout_stocks (scan_run same_token (scripted [Raises, Raises, Returns (Some month)])
                      exact_library 0 [''ACME'']) =
     [[(''symbol'', PyStr ''ACME''), (''breakout_type'', PyStr ''Full Breakout''),
       (''current_close'', PyFloat (Some 150)), (''previous_high'', PyFloat (Some 101)),
       (''breakout_size'', PyFloat (Some 49)), (''atr'', PyFloat (Some 6)),
       (''current_volume'', PyInt 4000), (''avg_volume'', PyFloat (Some 1150))]]"
proof -
  have "scan_run same_token (scripted [Raises, Raises, Returns (Some month)]) exact_library 0
          [''ACME''] =
        \<lparr>conn = 3, delay = 4, slept = [2, 4, 4],
         breakout_stocks =
           [[(''symbol'', PyStr ''ACME''), (''breakout_type'', PyStr ''Full Breakout''),
             (''current_close'', PyFloat (Some 150)), (''previous_high'', PyFloat (Some 101)),
             (''breakout_size'', PyFloat (Some 49)), (''atr'', PyFloat (Some 6)),
             (''current_volume'', PyInt 4000), (''avg_volume'', PyFloat (Some 1150))]]\<rparr>"
    by code_simp
  then show ?thesis by simp
qed

section \<open>Failures of one symbol\<close>

text \<open>
  C6. For a symbol with a token: an exception raised by a request is caught, and the
  next of the three attempts follows after the backoff; when all three requests raise,
  nothing is appended for the symbol, no fourth request is made, and the scan goes on
  with the remaining symbols; a response of \<^verbatim>\<open>None\<close> or of an empty frame ends the
  attempts after that one request, with no backoff and nothing appended. Whatever the
  collaborators do, every symbol of the list reaches the \<^verbatim>\<open>time.sleep\<close> that ends its
  round, so no failure ends the scan early.
\<close>

theorem fetch_failures_contained:
  assumes tok: "lookup symbol = Some symbol_token" "symbol_token \<noteq> []"
  shows "(fetch (conn st) symbol_token = (Raises, c1) \<longrightarrow>
        retry (Suc n) fetch lib symbol symbol_token st =
          retry n fetch lib symbol symbol_token
            (st\<lparr>conn := c1, delay := 2 * delay st, slept := slept st @ [2 * delay st]\<rparr>)) \<and>
     (fetch (conn st) symbol_token = (Raises, c1) \<and> fetch c1 symbol_token = (Raises, c2) \<and>
      fetch c2 symbol_token = (Raises, c3) \<longrightarrow>
        scan_symbol lookup fetch lib symbol st =
          st\<lparr>conn := c3, delay := 8 * delay st,
             slept := slept st @ [2 * delay st, 4 * delay st, 8 * delay st, 8 * delay st]\<rparr> \<and>
        fold (scan_symbol lookup fetch lib) (symbol # rest) st =
          fold (scan_symbol lookup fetch lib) rest
            (st\<lparr>conn := c3, delay := 8 * delay st,
               slept := slept st @ [2 * delay st, 4 * delay st, 8 * delay st, 8 * delay st]\<rparr>)) \<and>
     (fetch (conn st) symbol_token = (Returns None, c1) \<or>
      fetch (conn st) symbol_token = (Returns (Some []), c1) \<longrightarrow>
        scan_symbol lookup fetch lib symbol st
          = st\<lparr>conn := c1, slept := slept st @ [delay st]\<rparr>) \<and>
     length symbols \<le> length (slept (scan_run lookup fetch lib c symbols))"
proof (intro conjI impI)
  show "retry (Suc n) fetch lib symbol symbol_token st =
          retry n fetch lib symbol symbol_token
            (st\<lparr>conn := c1, delay := 2 * delay st, slept := slept st @ [2 * delay st]\<rparr>)"
    if "fetch (conn st) symbol_token = (Raises, c1)"
    using that by (rule retry_raises)
  show ex: "scan_symbol lookup fetch lib symbol st =
          st\<lparr>conn := c3, delay := 8 * delay st,
             slept := slept st @ [2 * delay st, 4 * delay st, 8 * delay st, 8 * delay st]\<rparr>"
    if "fetch (conn st) symbol_token = (Raises, c1) \<and> fetch c1 symbol_token = (Raises, c2) \<and>
      fetch c2 symbol_token = (Raises, c3)"
  proof -
    from that have f: "fetch (conn st) symbol_token = (Raises, c1)"
      "fetch c1 symbol_token = (Raises, c2)" "fetch c2 symbol_token = (Raises, c3)"
      by simp_all
    show ?thesis
      by (rule scan_symbol_exhausted [of lookup symbol symbol_token fetch st c1 c2 c3 lib,
            OF tok f])
  qed
  show "fold (scan_symbol lookup fetch lib) (symbol # rest) st =
          fold (scan_symbol lookup fetch lib) rest
            (st\<lparr>conn := c3, delay := 8 * delay st,
               slept := slept st @ [2 * delay st, 4 * delay st, 8 * delay st, 8 * delay st]\<rparr>)"
    if "fetch (conn st) symbol_token = (Raises, c1) \<and> fetch c1 symbol_token = (Raises, c2) \<and>
      fetch c2 symbol_token = (Raises, c3)"
    using ex [OF that] by simp
  show "scan_symbol lookup fetch lib symbol st
          = st\<lparr>conn := c1, slept := slept st @ [delay st]\<rparr>"
    if "fetch (conn st) symbol_token = (Returns None, c1) \<or>
      fetch (conn st) symbol_token = (Returns (Some []), c1)"
    by (rule scan_symbol_no_data [of lookup symbol symbol_token fetch st c1 lib,
          OF tok that])
  show "length symbols \<le> length (slept (scan_run lookup fetch lib c symbols))"
    using fold_scan_slept [of symbols "\<lparr>conn = c, delay = 1, slept = [], breakout_stocks = []\<rparr>"
        lookup fetch lib]
    by (simp add: scan_run_def)
qed

theorem fetch_failures_contained_witness:
  "same_token ''AAA'' = Some ''AAA'' \<and> ''AAA'' \<noteq> [] \<and>
   scripted [Raises, Raises, Raises, Returns (Some month)] 0 ''AAA'' = (Raises, 1) \<and>
   scripted [Raises, Raises, Raises, Returns (Some month)] 1 ''AAA'' = (Raises, 2) \<and>
   scripted [Raises, Raises, Raises, Returns (Some month)] 2 ''AAA'' = (Raises, 3) \<and>
   scan_symbol same_token (scripted [Raises, Raises, Raises, Returns (Some month)]) exact_library
       ''AAA'' \<lparr>conn = 0, delay = 1, slept = [], breakout_stocks = []\<rparr> =
     \<lparr>conn = 3, delay = 8, slept = [2, 4, 8, 8], breakout_stocks = []\<rparr> \<and>
   scripted [Returns (Some [])] 0 ''AAA'' = (Returns (Some []), 1) \<and>
   scan_symbol same_token (scripted [Returns (Some [])]) exact_library
       ''AAA'' \<lparr>conn = 0, delay = 1, slept = [], breakout_stocks = []\<rparr> =
     \<lparr>conn = 1, delay = 1, slept = [1], breakout_stocks = []\<rparr> \<and>
   length [''AAA'', ''BBB'']
     \<le> length (slept (scan_run same_token (scripted [Raises, Raises, Raises, Returns (Some month)])
                         exact_library 0 [''AAA'', ''BBB''])) \<and>
   scan_for_breakouts same_token (scripted [Raises, Raises, Raises, Returns (Some month)])
       exact_library 0 [''AAA'', ''BBB''] =
     [[(''symbol'', PyStr ''BBB''), (''breakout_type'', PyStr ''Full Breakout''),
       (''current_close'', PyFloat (Some 150)), (''previous_high'', PyFloat (Some 101)),
       (''breakout_size'', PyFloat (Some 49)), (''atr'', PyFloat (Some 6)),
       (''current_volume'', PyInt 4000), (''avg_volume'', PyFloat (Some 1150))]]"
proof -
  let ?rs = "[Raises, Raises, Raises, Returns (Some month)]"
  let ?st = "\<lparr>conn = 0::nat, delay = 1, slept = [], breakout_stocks = []\<rparr>"
  have t: "same_token ''AAA'' = Some ''AAA''" "''AAA'' \<noteq> []"
    by (simp_all add: same_token_def)
  have f: "scripted ?rs (conn ?st) ''AAA'' = (Raises, 1)"
    "scripted ?rs 1 ''AAA'' = (Raises, 2)" "scripted ?rs 2 ''AAA'' = (Raises, 3)"
    by (simp_all add: scripted_def)
  have e: "scripted [Returns (Some [])] (conn ?st) ''AAA'' = (Returns (Some []), 1)"
    by (simp add: scripted_def)
  note a = fetch_failures_contained [where lookup = same_token and symbol = "''AAA''"
      and symbol_token = "''AAA''" and fetch = "scripted ?rs" and lib = exact_library
      and st = ?st and ?c1.0 = 1 and ?c2.0 = 2 and ?c3.0 = 3 and n = 2 and rest = "[''BBB'']"
      and c = 0 and symbols = "[''AAA'', ''BBB'']", OF t]
  note b = fetch_failures_contained [where lookup = same_token and symbol = "''AAA''"
      and symbol_token = "''AAA''" and fetch = "scripted [Returns (Some [])]"
      and lib = exact_library and st = ?st and ?c1.0 = 1 and ?c2.0 = 2 and ?c3.0 = 3
      and n = 2 and rest = "[]" and c = 0 and symbols = "[]", OF t]
  from a f have a1: "scan_symbol same_token (scripted ?rs) exact_library ''AAA'' ?st =
     \<lparr>conn = 3, delay = 8, slept = [2, 4, 8, 8], breakout_stocks = []\<rparr>"
    by simp
  from b e have b1: "scan_symbol same_token (scripted [Returns (Some [])]) exact_library ''AAA'' ?st =
     \<lparr>conn = 1, delay = 1, slept = [1], breakout_stocks = []\<rparr>"
    by simp
  from a have a2: "length [''AAA'', ''BBB'']
     \<le> length (slept (scan_run same_token (scripted ?rs) exact_library 0 [''AAA'', ''BBB'']))"
    by blast
  have r: "scan_for_breakouts same_token (scripted ?rs) exact_library 0 [''AAA'', ''BBB''] =
     [[(''symbol'', PyStr ''BBB''), (''breakout_type'', PyStr ''Full Breakout''),
       (''current_close'', PyFloat (Some 150)), (''previous_high'', PyFloat (Some 101)),
       (''breakout_size'', PyFloat (Some 49)), (''atr'', PyFloat (Some 6)),
       (''current_volume'', PyInt 4000), (''avg_volume'', PyFloat (Some 1150))]]"
    by code_simp
  from t f e a1 b1 a2 r show ?thesis by simp
qed

section \<open>What the scan returns\<close>

text \<open>
  C7. When a request for a symbol returns a non-empty frame and the classifier returns a
  tuple for it, in whichever of the attempts, the attempts end there and the row of the
  symbol is appended exactly if \<^verbatim>\<open>is_breakout\<close> is true; nothing else changes but the
  connector. Every row of the returned list is a symbol of the
  input list joined with a tuple the classifier returned with \<^verbatim>\<open>is_breakout = True\<close>: its
  \<^verbatim>\<open>breakout_type\<close> is one of the three breakout categories, never \<^verbatim>\<open>No Breakout\<close> or
  \<^verbatim>\<open>Insufficient Data\<close>, and it carries the six metrics.
\<close>

theorem only_breakouts_kept:
  "(fetch (conn st) symbol_token = (Returns (Some df), c1) \<and> df \<noteq> [] \<and>
    snd (identify_breakout lib df 20) = Inr (is_breakout, breakout_type, dets) \<longrightarrow>
      retry (Suc n) fetch lib symbol symbol_token st =
        st\<lparr>conn := c1,
           breakout_stocks := breakout_stocks st @
             (if is_breakout
              then [(''symbol'', PyStr symbol) # (''breakout_type'', PyStr breakout_type) # dets]
              else [])\<rparr>) \<and>
   (row \<in> set (scan_for_breakouts lookup fetch lib c symbols) \<longrightarrow>
      (\<exists>symbol' \<in> set symbols. \<exists>df' breakout_type' dets'.
         snd (identify_breakout lib df' 20) = Inr (True, breakout_type', dets') \<and>
         row = (''symbol'', PyStr symbol') # (''breakout_type'', PyStr breakout_type') # dets' \<and>
         breakout_type' \<in> {''Full Breakout'', ''Partial Breakout - Low Volume'',
                           ''Partial Breakout - Small Size''} \<and>
         breakout_type' \<noteq> ''No Breakout'' \<and> breakout_type' \<noteq> ''Insufficient Data'' \<and>
         map fst dets' = [''current_close'', ''previous_high'', ''breakout_size'', ''atr'',
                          ''current_volume'', ''avg_volume'']))"
proof (intro conjI impI)
  assume h: "fetch (conn st) symbol_token = (Returns (Some df), c1) \<and> df \<noteq> [] \<and>
    snd (identify_breakout lib df 20) = Inr (is_breakout, breakout_type, dets)"
  then have f: "fetch (conn st) symbol_token = (Returns (Some df), c1)" "df \<noteq> []"
      "snd (identify_breakout lib df 20) = Inr (is_breakout, breakout_type, dets)"
    by simp_all
  have "attempt fetch lib symbol symbol_token st =
     (st\<lparr>conn := c1,
         breakout_stocks := breakout_stocks st @
           (if is_breakout
            then [(''symbol'', PyStr symbol) # (''breakout_type'', PyStr breakout_type) # dets]
            else [])\<rparr>, None)"
    by (rule attempt_verdict
        [of fetch st symbol_token df c1 lib is_breakout breakout_type dets symbol, OF f])
  then show "retry (Suc n) fetch lib symbol symbol_token st =
        st\<lparr>conn := c1,
           breakout_stocks := breakout_stocks st @
             (if is_breakout
              then [(''symbol'', PyStr symbol) # (''breakout_type'', PyStr breakout_type) # dets]
              else [])\<rparr>"
    by simp
next
  assume "row \<in> set (scan_for_breakouts lookup fetch lib c symbols)"
  then have "row \<in> set (breakout_stocks (fold (scan_symbol lookup fetch lib) symbols
                \<lparr>conn = c, delay = 1, slept = [], breakout_stocks = []\<rparr>))"
    by (simp add: scan_for_breakouts_def scan_run_def)
  from fold_scan_rows [OF this]
  have "\<exists>symbol' \<in> set symbols. \<exists>df' breakout_type' dets'.
        snd (identify_breakout lib df' 20) = Inr (True, breakout_type', dets') \<and>
        row = (''symbol'', PyStr symbol') # (''breakout_type'', PyStr breakout_type') # dets'"
    by simp
  then obtain symbol' df' breakout_type' dets' where
    r: "symbol' \<in> set symbols"
       "snd (identify_breakout lib df' 20) = Inr (True, breakout_type', dets')"
       "row = (''symbol'', PyStr symbol') # (''breakout_type'', PyStr breakout_type') # dets'"
    by blast
  from breakout_types [OF r(2)] have
    t: "breakout_type' \<in> {''Full Breakout'', ''Partial Breakout - Low Volume'',
                           ''Partial Breakout - Small Size''}"
       "map fst dets' = [''current_close'', ''previous_high'', ''breakout_size'', ''atr'',
                          ''current_volume'', ''avg_volume'']"
    by simp_all
  have "''Full Breakout'' \<noteq> ''No Breakout''" "''Full Breakout'' \<noteq> ''Insufficient Data''"
    "''Partial Breakout - Low Volume'' \<noteq> ''No Breakout''"
    "''Partial Breakout - Low Volume'' \<noteq> ''Insufficient Data''"
    "''Partial Breakout - Small Size'' \<noteq> ''No Breakout''"
    "''Partial Breakout - Small Size'' \<noteq> ''Insufficient Data''"
    by simp_all
  with t(1) have n: "breakout_type' \<noteq> ''No Breakout''" "breakout_type' \<noteq> ''Insufficient Data''"
    by (elim insertE emptyE; simp)+
  from r t n show "\<exists>symbol' \<in> set symbols. \<exists>df' breakout_type' dets'.
         snd (identify_breakout lib df' 20) = Inr (True, breakout_type', dets') \<and>
         row = (''symbol'', PyStr symbol') # (''breakout_type'', PyStr breakout_type') # dets' \<and>
         breakout_type' \<in> {''Full Breakout'', ''Partial Breakout - Low Volume'',
                           ''Partial Breakout - Small Size''} \<and>
         breakout_type' \<noteq> ''No Breakout'' \<and> breakout_type' \<noteq> ''Insufficient Data'' \<and>
         map fst dets' = [''current_close'', ''previous_high'', ''breakout_size'', ''atr'',
                          ''current_volume'', ''avg_volume'']"
    by (intro bexI [of _ symbol'] exI [of _ df'] exI [of _ breakout_type'] exI [of _ dets'] conjI)
qed

theorem only_breakouts_kept_witness:
  "same_token ''AAA'' = Some ''AAA'' \<and> ''AAA'' \<noteq> [] \<and>
   scripted [Returns (Some month), Returns (Some (map quiet [1..20])), Returns (Some fed)] 0 ''AAA''
     = (Returns (Some month), 1) \<and>
   month \<noteq> [] \<and>
   snd (identify_breakout exact_library month 20) =
     Inr (True, ''Full Breakout'',
          [(''current_close'', PyFloat (Some 150)), (''previous_high'', PyFloat (Some 101)),
           (''breakout_size'', PyFloat (Some 49)), (''atr'', PyFloat (Some 6)),
           (''current_volume'', PyInt 4000), (''avg_volume'', PyFloat (Some 1150))]) \<and>
   snd (identify_breakout exact_library (map quiet [1..20]) 20) = Inr (False, ''No Breakout'', []) \<and>
   snd (identify_breakout exact_library fed 20) = Inr (False, ''Insufficient Data'', []) \<and>
   retry (Suc 2)
        (scripted [Returns (Some month), Returns (Some (map quiet [1..20])), Returns (Some fed)])
        exact_library ''AAA'' ''AAA'' \<lparr>conn = 0, delay = 1, slept = [], breakout_stocks = []\<rparr> =
     \<lparr>conn = 1, delay = 1, slept = [],
      breakout_stocks =
        [[(''symbol'', PyStr ''AAA''), (''breakout_type'', PyStr ''Full Breakout''),
          (''current_close'', PyFloat (Some 150)), (''previous_high'', PyFloat (Some 101)),
          (''breakout_size'', PyFloat (Some 49)), (''atr'', PyFloat (Some 6)),
          (''current_volume'', PyInt 4000), (''avg_volume'', PyFloat (Some 1150))]]\<rparr> \<and>
   scan_for_breakouts same_token
       (scripted [Returns (Some month), Returns (Some (map quiet [1..20])), Returns (Some fed)])
       exact_library 0 [''AAA'', ''BBB'', ''CCC''] =
     [[(''symbol'', PyStr ''AAA''), (''breakout_type'', PyStr ''Full Breakout''),
       (''current_close'', PyFloat (Some 150)), (''previous_high'', PyFloat (Some 101)),
       (''breakout_size'', PyFloat (Some 49)), (''atr'', PyFloat (Some 6)),
       (''current_volume'', PyInt 4000), (''avg_volume'', PyFloat (Some 1150))]] \<and>
   (\<exists>df'. snd (identify_breakout exact_library df' 20) =
     Inr (True, ''Full Breakout'',
          [(''current_close'', PyFloat (Some 150)), (''previous_high'', PyFloat (Some 101)),
           (''breakout_size'', PyFloat (Some 49)), (''atr'', PyFloat (Some 6)),
           (''current_volume'', PyInt 4000), (''avg_volume'', PyFloat (Some 1150))]))"
proof -
  let ?rs = "[Returns (Some month), Returns (Some (map quiet [1..20])), Returns (Some fed)]"
  let ?st = "\<lparr>conn = 0::nat, delay = 1, slept = [], breakout_stocks = []\<rparr>"
  let ?dets = "[(''current_close'', PyFloat (Some 150)), (''previous_high'', PyFloat (Some 101)),
           (''breakout_size'', PyFloat (Some 49)), (''atr'', PyFloat (Some 6)),
           (''current_volume'', PyInt 4000), (''avg_volume'', PyFloat (Some 1150))]"
  let ?row = "(''symbol'', PyStr ''AAA'') # (''breakout_type'', PyStr ''Full Breakout'') # ?dets"
  have t: "same_token ''AAA'' = Some ''AAA''" "''AAA'' \<noteq> []"
    by (simp_all add: same_token_def)
  have f: "scripted ?rs (conn ?st) ''AAA'' = (Returns (Some month), 1)"
    by (simp add: scripted_def)
  have m: "month \<noteq> []" by (simp add: month_def)
  have v: "snd (identify_breakout exact_library month 20) = Inr (True, ''Full Breakout'', ?dets)"
    by code_simp
  have v2: "snd (identify_breakout exact_library (map quiet [1..20]) 20) = Inr (False, ''No Breakout'', [])"
    by code_simp
  have v3: "snd (identify_breakout exact_library fed 20) = Inr (False, ''Insufficient Data'', [])"
    by code_simp
  have r: "scan_for_breakouts same_token (scripted ?rs) exact_library 0 [''AAA'', ''BBB'', ''CCC'']
             = [?row]"
    by code_simp
  then have i: "?row \<in> set (scan_for_breakouts same_token (scripted ?rs) exact_library 0
                               [''AAA'', ''BBB'', ''CCC''])"
    by simp
  note k = only_breakouts_kept [where lookup = same_token and symbol = "''AAA''"
      and symbol_token = "''AAA''" and fetch = "scripted ?rs" and lib = exact_library
      and st = ?st and ?c1.0 = 1 and df = month and is_breakout = True
      and breakout_type = "''Full Breakout''" and dets = ?dets and row = ?row and c = 0
      and symbols = "[''AAA'', ''BBB'', ''CCC'']" and n = 2]
  from k f m v have one: "retry (Suc 2) (scripted ?rs) exact_library ''AAA'' ''AAA'' ?st =
      \<lparr>conn = 1, delay = 1, slept = [], breakout_stocks = [?row]\<rparr>"
    by simp
  have two: "\<exists>df'. snd (identify_breakout exact_library df' 20)
                    = Inr (True, ''Full Breakout'', ?dets)"
    using k [THEN conjunct2, THEN mp, OF i]
  proof (elim bexE exE conjE)
    fix symbol' df' breakout_type' dets'
    assume w1: "snd (identify_breakout exact_library df' 20) = Inr (True, breakout_type', dets')"
      and w2: "?row = (''symbol'', PyStr symbol') # (''breakout_type'', PyStr breakout_type') # dets'"
    from w2 have "breakout_type' = ''Full Breakout''" "dets' = ?dets" by simp_all
    with w1 have e: "snd (identify_breakout exact_library df' 20)
                       = Inr (True, ''Full Breakout'', ?dets)"
      by simp
    show ?thesis by (rule exI [of _ df'], rule e)
  qed
  have f0: "scripted ?rs 0 ''AAA'' = (Returns (Some month), 1)"
    by (simp add: scripted_def)
  from t f0 m v v2 v3 one r two show ?thesis by (intro conjI)
qed

end
